theory Spec2Isabelle
  imports Main "HOL-Library.Sublist"
begin

section \<open>Values read from Entrez\<close>

text \<open>
  \<^verbatim>\<open>Entrez.read\<close> returns nested dictionaries, lists and strings. The code never checks
  their shape; it subscripts them and lets Python raise. A dictionary is an association
  list in insertion order, looked up with \<^const>\<open>map_of\<close>. Strings are sequences of
  8-bit characters, read as the code points U+0000 to U+00FF.
\<close>

datatype pyval = Str string | Lst "pyval list" | Dct "(string \<times> pyval) list"

datatype error = KeyError | IndexError | TypeError | AttributeError | IOError

text \<open>\<^verbatim>\<open>obj[k]\<close> for a string key \<open>k\<close>.\<close>

fun subscript_key :: "pyval \<Rightarrow> string \<Rightarrow> error + pyval" where
  "subscript_key (Dct kvs) k = (case map_of kvs k of None \<Rightarrow> Inl KeyError | Some v \<Rightarrow> Inr v)"
| "subscript_key (Lst xs) k = Inl TypeError"
| "subscript_key (Str s) k = Inl TypeError"

text \<open>\<^verbatim>\<open>obj[0]\<close>. The keys of a dictionary are strings, so \<open>0\<close> is never one of them.\<close>

fun subscript_0 :: "pyval \<Rightarrow> error + pyval" where
  "subscript_0 (Lst []) = Inl IndexError"
| "subscript_0 (Lst (x # xs)) = Inr x"
| "subscript_0 (Str []) = Inl IndexError"
| "subscript_0 (Str (c # cs)) = Inr (Str [c])"
| "subscript_0 (Dct kvs) = Inl KeyError"

datatype accessor = Key string | Idx0

text \<open>A chain of subscripts \<^verbatim>\<open>obj[a][b]...\<close>, evaluated left to right; the first failure is raised.\<close>

fun py_path :: "pyval \<Rightarrow> accessor list \<Rightarrow> error + pyval" where
  "py_path v [] = Inr v"
| "py_path v (Key k # rest) =
     (case subscript_key v k of Inl e \<Rightarrow> Inl e | Inr w \<Rightarrow> py_path w rest)"
| "py_path v (Idx0 # rest) =
     (case subscript_0 v of Inl e \<Rightarrow> Inl e | Inr w \<Rightarrow> py_path w rest)"

text \<open>\<^verbatim>\<open>obj.get(k, d)\<close>: only dictionaries have the method.\<close>

fun py_get :: "pyval \<Rightarrow> string \<Rightarrow> pyval \<Rightarrow> error + pyval" where
  "py_get (Dct kvs) k d = (case map_of kvs k of None \<Rightarrow> Inr d | Some v \<Rightarrow> Inr v)"
| "py_get (Lst xs) k d = Inl AttributeError"
| "py_get (Str s) k d = Inl AttributeError"

text \<open>The elements a \<^verbatim>\<open>for\<close> loop visits: list items, the characters of a string, the keys of a dictionary.\<close>

fun py_iter :: "pyval \<Rightarrow> pyval list" where
  "py_iter (Lst xs) = xs"
| "py_iter (Str s) = map (\<lambda>c. Str [c]) s"
| "py_iter (Dct kvs) = map (\<lambda>kv. Str (fst kv)) kvs"

text \<open>Substring containment of Python strings, case-sensitive.\<close>

fun str_contains :: "string \<Rightarrow> string \<Rightarrow> bool" where
  "str_contains k [] = (k = [])"
| "str_contains k (c # cs) = (prefix k (c # cs) \<or> str_contains k cs)"

text \<open>\<^verbatim>\<open>k in obj\<close> for a string \<open>k\<close>: substring of a string, element of a list, key of a dictionary.\<close>

fun py_in :: "string \<Rightarrow> pyval \<Rightarrow> bool" where
  "py_in k (Str s) = str_contains k s"
| "py_in k (Lst xs) = (Str k \<in> set xs)"
| "py_in k (Dct kvs) = (map_of kvs k \<noteq> None)"

text \<open>\<^verbatim>\<open>a + b\<close>: concatenation of two strings or of two lists, a TypeError otherwise.\<close>

fun py_add :: "pyval \<Rightarrow> pyval \<Rightarrow> error + pyval" where
  "py_add (Str a) (Str b) = Inr (Str (a @ b))"
| "py_add (Lst a) (Lst b) = Inr (Lst (a @ b))"
| "py_add (Str a) (Lst b) = Inl TypeError"
| "py_add (Str a) (Dct b) = Inl TypeError"
| "py_add (Lst a) (Str b) = Inl TypeError"
| "py_add (Lst a) (Dct b) = Inl TypeError"
| "py_add (Dct a) b = Inl TypeError"

section \<open>The regular expression\<close>

text \<open>
  \<^verbatim>\<open>re.search\<close> on patterns that are a sequence of one-character items, each a character
  class taken once or under a greedy \<^verbatim>\<open>+\<close>. \<open>rx_match\<close> matches at the start of the
  text by backtracking: a \<^verbatim>\<open>+\<close> first takes as many characters as it can and gives
  them back one at a time when the rest of the pattern fails. \<open>re_search\<close> tries the start
  positions from left to right and returns the first match.
\<close>

datatype rx_item = One "char \<Rightarrow> bool" | Plus "char \<Rightarrow> bool"

fun rx_match :: "rx_item list \<Rightarrow> string \<Rightarrow> string option" where
  "rx_match [] s = Some []"
| "rx_match (One p # rs) [] = None"
| "rx_match (One p # rs) (c # cs) =
     (if p c then map_option (Cons c) (rx_match rs cs) else None)"
| "rx_match (Plus p # rs) [] = None"
| "rx_match (Plus p # rs) (c # cs) =
     (if p c then
        (case rx_match (Plus p # rs) cs of
           Some m \<Rightarrow> Some (c # m)
         | None \<Rightarrow> map_option (Cons c) (rx_match rs cs))
      else None)"

fun re_search :: "rx_item list \<Rightarrow> string \<Rightarrow> string option" where
  "re_search r [] = rx_match r []"
| "re_search r (c # cs) =
     (case rx_match r (c # cs) of Some m \<Rightarrow> Some m | None \<Rightarrow> re_search r cs)"

text \<open>\<^verbatim>\<open>\w\<close> on the code points up to U+00FF: letters, digits, the underscore, and the
  alphanumeric characters of Latin-1.\<close>

definition word_char :: "char \<Rightarrow> bool" where
  "word_char c =
     (let n = (of_char c :: nat) in
        (48 \<le> n \<and> n \<le> 57) \<or> (65 \<le> n \<and> n \<le> 90) \<or> n = 95 \<or> (97 \<le> n \<and> n \<le> 122) \<or>
        n = 170 \<or> n = 178 \<or> n = 179 \<or> n = 181 \<or> n = 185 \<or> n = 186 \<or>
        (188 \<le> n \<and> n \<le> 190) \<or> (192 \<le> n \<and> n \<le> 214) \<or> (216 \<le> n \<and> n \<le> 246) \<or>
        (248 \<le> n \<and> n \<le> 255))"

text \<open>The class \<^verbatim>\<open>[\w\.-]\<close>.\<close>

definition email_char :: "char \<Rightarrow> bool" where
  "email_char c = (word_char c \<or> c = CHR ''.'' \<or> c = CHR ''-'')"

definition at_sign :: "char \<Rightarrow> bool" where
  "at_sign c = (c = CHR ''@'')"

text \<open>The pattern \<^verbatim>\<open>[\w\.-]+@[\w\.-]+\<close>.\<close>

definition email_pattern :: "rx_item list" where
  "email_pattern = [Plus email_char, One at_sign, Plus email_char]"

section \<open>The row under construction\<close>

record paper_info =
  PubmedID :: pyval
  Title :: pyval
  Publication_Date :: pyval
  Non_academic_Authors :: "pyval list"
  Company_Affiliations :: "pyval list"
  Corresponding_Author_Email :: string

definition NON_ACADEMIC_KEYWORDS :: "string list" where
  "NON_ACADEMIC_KEYWORDS =
     [''Pharma'', ''Biotech'', ''Inc'', ''Ltd'', ''Corporation'', ''Company'', ''Laboratories'']"

definition ACADEMIC_KEYWORDS :: "string list" where
  "ACADEMIC_KEYWORDS = [''University'', ''Institute'', ''Academy'', ''Hospital'', ''Research Center'']"

text \<open>The dictionary of line 33.\<close>

definition new_paper_info :: "pyval \<Rightarrow> paper_info" where
  "new_paper_info pmid =
     \<lparr>PubmedID = pmid, Title = Str [], Publication_Date = Str [],
      Non_academic_Authors = [], Company_Affiliations = [],
      Corresponding_Author_Email = []\<rparr>"

section \<open>One author\<close>

text \<open>The condition of line 44.\<close>

definition is_non_academic :: "pyval \<Rightarrow> bool" where
  "is_non_academic affiliation =
     (list_ex (\<lambda>keyword. py_in keyword affiliation) NON_ACADEMIC_KEYWORDS \<and>
      \<not> list_ex (\<lambda>keyword. py_in keyword affiliation) ACADEMIC_KEYWORDS)"

text \<open>\<^verbatim>\<open>author["AffiliationInfo"][0]["Affiliation"]\<close>\<close>

definition first_affiliation :: "pyval \<Rightarrow> error + pyval" where
  "first_affiliation author = py_path author [Key ''AffiliationInfo'', Idx0, Key ''Affiliation'']"

text \<open>\<^verbatim>\<open>author["LastName"] + " " + author["ForeName"]\<close>, operands evaluated left to right.\<close>

definition author_name :: "pyval \<Rightarrow> error + pyval" where
  "author_name author =
     (case subscript_key author ''LastName'' of
        Inl e \<Rightarrow> Inl e
      | Inr last_name \<Rightarrow>
          (case py_add last_name (Str '' '') of
             Inl e \<Rightarrow> Inl e
           | Inr left \<Rightarrow>
               (case subscript_key author ''ForeName'' of
                  Inl e \<Rightarrow> Inl e
                | Inr fore_name \<Rightarrow> py_add left fore_name)))"

text \<open>
  A step of the \<^verbatim>\<open>try\<close> body returns the dictionary as it stands and the exception
  raised, if any: what was written before an exception stays written.
\<close>

type_synonym outcome = "paper_info \<times> error option"

text \<open>Lines 48 to 51. \<^verbatim>\<open>re.search\<close> raises a TypeError on anything but a string.\<close>

definition scan_email :: "paper_info \<Rightarrow> pyval \<Rightarrow> outcome" where
  "scan_email info affiliation =
     (if py_in ''@'' affiliation then
        (case affiliation of
           Str s \<Rightarrow>
             (case re_search email_pattern s of
                Some m \<Rightarrow> (info\<lparr>Corresponding_Author_Email := m\<rparr>, None)
              | None \<Rightarrow> (info, None))
         | Lst xs \<Rightarrow> (info, Some TypeError)
         | Dct kvs \<Rightarrow> (info, Some TypeError))
      else (info, None))"

text \<open>Lines 42 to 51, the body of the loop over the authors.\<close>

definition author_step :: "paper_info \<Rightarrow> pyval \<Rightarrow> outcome" where
  "author_step info author =
     (if py_in ''AffiliationInfo'' author then
        (case first_affiliation author of
           Inl e \<Rightarrow> (info, Some e)
         | Inr affiliation \<Rightarrow>
             (if is_non_academic affiliation then
                (case author_name author of
                   Inl e \<Rightarrow> (info, Some e)
                 | Inr name \<Rightarrow>
                     scan_email
                       (info\<lparr>Non_academic_Authors := Non_academic_Authors info @ [name],
                             Company_Affiliations := Company_Affiliations info @ [affiliation]\<rparr>)
                       affiliation)
              else scan_email info affiliation))
      else (info, None))"

fun author_loop :: "paper_info \<Rightarrow> pyval list \<Rightarrow> outcome" where
  "author_loop info [] = (info, None)"
| "author_loop info (author # authors) =
     (case author_step info author of
        (info', Some e) \<Rightarrow> (info', Some e)
      | (info', None) \<Rightarrow> author_loop info' authors)"

section \<open>One record\<close>

text \<open>Line 36.\<close>

definition record_article :: "pyval \<Rightarrow> error + pyval" where
  "record_article records =
     py_path records [Key ''PubmedArticle'', Idx0, Key ''MedlineCitation'', Key ''Article'']"

text \<open>Line 39 and the sequence the loop of line 41 runs over.\<close>

definition article_authors :: "pyval \<Rightarrow> error + pyval list" where
  "article_authors article =
     (case py_get article ''AuthorList'' (Lst []) of
        Inl e \<Rightarrow> Inl e
      | Inr authors \<Rightarrow> Inr (py_iter authors))"

text \<open>Lines 36 to 51, the body of the \<^verbatim>\<open>try\<close>.\<close>

definition extract_body :: "pyval \<Rightarrow> paper_info \<Rightarrow> outcome" where
  "extract_body records info =
     (case record_article records of
        Inl e \<Rightarrow> (info, Some e)
      | Inr article \<Rightarrow>
          (case subscript_key article ''ArticleTitle'' of
             Inl e \<Rightarrow> (info, Some e)
           | Inr title \<Rightarrow>
               (case py_path article [Key ''Journal'', Key ''JournalIssue'', Key ''PubDate'', Key ''Year''] of
                  Inl e \<Rightarrow> (info\<lparr>Title := title\<rparr>, Some e)
                | Inr year \<Rightarrow>
                    (case article_authors article of
                       Inl e \<Rightarrow> (info\<lparr>Title := title, Publication_Date := year\<rparr>, Some e)
                     | Inr authors \<Rightarrow>
                         author_loop (info\<lparr>Title := title, Publication_Date := year\<rparr>) authors))))"

text \<open>
  Lines 33 to 55: the record already read. The exception of the \<^verbatim>\<open>try\<close> body is
  swallowed and the dictionary is returned when its list of flagged authors is not empty.
\<close>

definition extract_record :: "pyval \<Rightarrow> pyval \<Rightarrow> paper_info option" where
  "extract_record pmid records =
     (let paper_info = fst (extract_body records (new_paper_info pmid))
      in if Non_academic_Authors paper_info \<noteq> [] then Some paper_info else None)"

text \<open>
  \<open>extract_paper_details\<close>. The parameter \<open>efetch\<close> stands for \<^verbatim>\<open>Entrez.efetch\<close> followed
  by \<^verbatim>\<open>Entrez.read\<close> (lines 29 to 31), outside the \<^verbatim>\<open>try\<close>: its exception propagates.
\<close>

definition extract_paper_details :: "(pyval \<Rightarrow> error + pyval) \<Rightarrow> pyval \<Rightarrow> error + paper_info option" where
  "extract_paper_details efetch pmid =
     (case efetch pmid of
        Inl e \<Rightarrow> Inl e
      | Inr records \<Rightarrow> Inr (extract_record pmid records))"

section \<open>The pipeline\<close>

text \<open>Lines 21 to 26. A returned dictionary has six keys and is true as a condition.\<close>

fun fetch_loop :: "(pyval \<Rightarrow> error + pyval) \<Rightarrow> pyval list \<Rightarrow> paper_info list \<Rightarrow> error + paper_info list" where
  "fetch_loop efetch [] results = Inr results"
| "fetch_loop efetch (pmid # pmids) results =
     (case extract_paper_details efetch pmid of
        Inl e \<Rightarrow> Inl e
      | Inr None \<Rightarrow> fetch_loop efetch pmids results
      | Inr (Some paper_data) \<Rightarrow> fetch_loop efetch pmids (results @ [paper_data]))"

text \<open>
  \<open>fetch_papers\<close>. The parameter \<open>esearch\<close> stands for \<^verbatim>\<open>Entrez.esearch\<close> followed by
  \<^verbatim>\<open>Entrez.read\<close>; it receives the query and \<^verbatim>\<open>retmax\<close>.
\<close>

definition fetch_papers ::
  "(string \<Rightarrow> nat \<Rightarrow> error + pyval) \<Rightarrow> (pyval \<Rightarrow> error + pyval) \<Rightarrow> string \<Rightarrow> error + paper_info list" where
  "fetch_papers esearch efetch query =
     (case esearch query 20 of
        Inl e \<Rightarrow> Inl e
      | Inr record \<Rightarrow>
          (case py_get record ''IdList'' (Lst []) of
             Inl e \<Rightarrow> Inl e
           | Inr pmids \<Rightarrow> fetch_loop efetch (py_iter pmids) []))"

section \<open>The report\<close>

text \<open>
  \<^verbatim>\<open>csv.writer\<close> in the default dialect: fields separated by commas, a field holding a
  comma, a double quote, a carriage return or a line feed is put in double quotes with
  its quotes doubled, and every row ends with carriage return and line feed.
\<close>

definition csv_special :: "char \<Rightarrow> bool" where
  "csv_special c = (c = CHR '','' \<or> c = CHR 0x22 \<or> c = CHR 0x0D \<or> c = CHR 0x0A)"

definition csv_field :: "string \<Rightarrow> string" where
  "csv_field s =
     (if list_ex csv_special s
      then [CHR 0x22] @ concat (map (\<lambda>c. if c = CHR 0x22 then [c, c] else [c]) s) @ [CHR 0x22]
      else s)"

fun csv_join :: "string list \<Rightarrow> string" where
  "csv_join [] = []"
| "csv_join [f] = f"
| "csv_join (f # g # fs) = f @ '','' @ csv_join (g # fs)"

definition csv_writerow :: "string list \<Rightarrow> string" where
  "csv_writerow cells = csv_join (map csv_field cells) @ [CHR 0x0D, CHR 0x0A]"

definition fieldnames :: "string list" where
  "fieldnames =
     [''PubmedID'', ''Title'', ''Publication Date'', ''Non-academic Author(s)'',
      ''Company Affiliation(s)'', ''Corresponding Author Email'']"

text \<open>
  The values of a row in the order of \<open>fieldnames\<close>. The writer takes a string as it is
  and applies \<^verbatim>\<open>str\<close> to any other value; \<^verbatim>\<open>str\<close> is the parameter \<open>py_str\<close>.
\<close>

definition row_values :: "paper_info \<Rightarrow> pyval list" where
  "row_values row =
     [PubmedID row, Title row, Publication_Date row, Lst (Non_academic_Authors row),
      Lst (Company_Affiliations row), Str (Corresponding_Author_Email row)]"

fun csv_text :: "(pyval \<Rightarrow> string) \<Rightarrow> pyval \<Rightarrow> string" where
  "csv_text py_str (Str s) = s"
| "csv_text py_str (Lst xs) = py_str (Lst xs)"
| "csv_text py_str (Dct kvs) = py_str (Dct kvs)"

text \<open>\<open>save_to_csv\<close>: the text written to the file, the header row and then one row per dictionary.\<close>

definition save_to_csv :: "(pyval \<Rightarrow> string) \<Rightarrow> paper_info list \<Rightarrow> string" where
  "save_to_csv py_str data =
     csv_writerow fieldnames @
     concat (map (\<lambda>row. csv_writerow (map (csv_text py_str) (row_values row))) data)"

section \<open>Notions of the specification\<close>

text \<open>
  An email-shaped text: a local part of word characters, dots and hyphens, the sign
  \<open>@\<close>, and a domain of the same characters, neither part empty.
\<close>

definition email_shaped :: "string \<Rightarrow> bool" where
  "email_shaped m =
     (\<exists>l d. m = l @ CHR ''@'' # d \<and> l \<noteq> [] \<and> d \<noteq> [] \<and>
            (\<forall>c \<in> set l. email_char c) \<and> (\<forall>c \<in> set d. email_char c))"

text \<open>
  \<open>m\<close> is the first email-shaped substring of \<open>s\<close>: none starts further left, and none
  starting at the same place is longer.
\<close>

definition first_email_shaped :: "string \<Rightarrow> string \<Rightarrow> bool" where
  "first_email_shaped s m =
     (\<exists>pre post. s = pre @ m @ post \<and> email_shaped m \<and>
        (\<forall>pre' m' post'. s = pre' @ m' @ post' \<and> email_shaped m' \<longrightarrow>
           length pre < length pre' \<or> (length pre = length pre' \<and> length m' \<le> length m)))"

text \<open>What the pattern matches at the start of a text, in closed form.\<close>

definition email_at :: "string \<Rightarrow> string option" where
  "email_at s =
     (if takeWhile email_char s = [] then None
      else (case dropWhile email_char s of
              [] \<Rightarrow> None
            | c # d \<Rightarrow> if at_sign c \<and> takeWhile email_char d \<noteq> []
                       then Some (takeWhile email_char s @ c # takeWhile email_char d) else None))"

text \<open>The email that the loop body takes from an author, if it takes one.\<close>

definition author_email :: "pyval \<Rightarrow> string option" where
  "author_email author =
     (case first_affiliation author of
        Inr (Str s) \<Rightarrow> if py_in ''@'' (Str s) then re_search email_pattern s else None
      | Inr (Lst xs) \<Rightarrow> None
      | Inr (Dct kvs) \<Rightarrow> None
      | Inl e \<Rightarrow> None)"

text \<open>The authors the loop of a record runs over, when the lines before the loop succeed.\<close>

definition record_authors :: "pyval \<Rightarrow> error + pyval list" where
  "record_authors records =
     (case record_article records of
        Inl e \<Rightarrow> Inl e
      | Inr article \<Rightarrow>
          (case subscript_key article ''ArticleTitle'' of
             Inl e \<Rightarrow> Inl e
           | Inr title \<Rightarrow>
               (case py_path article [Key ''Journal'', Key ''JournalIssue'', Key ''PubDate'', Key ''Year''] of
                  Inl e \<Rightarrow> Inl e
                | Inr year \<Rightarrow> article_authors article)))"

section \<open>Sample records\<close>

text \<open>An author with both names and the given affiliation entries, and a record with the given authors.\<close>

definition sample_author :: "string \<Rightarrow> string \<Rightarrow> string list \<Rightarrow> pyval" where
  "sample_author last_name fore_name affiliations =
     Dct [(''LastName'', Str last_name), (''ForeName'', Str fore_name),
          (''AffiliationInfo'', Lst (map (\<lambda>a. Dct [(''Affiliation'', Str a)]) affiliations))]"

definition sample_article :: "string \<Rightarrow> string \<Rightarrow> pyval list \<Rightarrow> pyval" where
  "sample_article title year authors =
     Dct [(''ArticleTitle'', Str title),
          (''Journal'', Dct [(''JournalIssue'', Dct [(''PubDate'', Dct [(''Year'', Str year)])])]),
          (''AuthorList'', Lst authors)]"

definition sample_record :: "string \<Rightarrow> string \<Rightarrow> pyval list \<Rightarrow> pyval" where
  "sample_record title year authors =
     Dct [(''PubmedArticle'',
           Lst [Dct [(''MedlineCitation'', Dct [(''Article'', sample_article title year authors)])]])]"

text \<open>
  A search client that knows three identifiers and returns at most \<open>retmax\<close> of them, and
  a fetcher for them: a paper of one company author, a paper of one university author, and
  a paper whose second author has an empty list of affiliations.
\<close>

definition sample_esearch :: "string \<Rightarrow> nat \<Rightarrow> error + pyval" where
  "sample_esearch query retmax =
     Inr (Dct [(''Count'', Str ''3''),
               (''IdList'', Lst (take retmax [Str ''101'', Str ''102'', Str ''103'']))])"

definition sample_efetch :: "pyval \<Rightarrow> error + pyval" where
  "sample_efetch pmid =
     (if pmid = Str ''101'' then
        Inr (sample_record ''Trial A'' ''2021''
               [sample_author ''Doe'' ''John'' [''XYZ Pharma Inc, contact: a.b@xyz.com'']])
      else if pmid = Str ''102'' then
        Inr (sample_record ''Survey B'' ''2022''
               [sample_author ''Poe'' ''Eve'' [''Department of Biology, University of X'']])
      else if pmid = Str ''103'' then
        Inr (sample_record ''Study C'' ''2023''
               [sample_author ''Roe'' ''Ann'' [''Acme Biotech Ltd''],
                sample_author ''Moe'' ''Max'' []])
      else Inl IOError)"

text \<open>The rows that the sample papers 101 and 103 give.\<close>

definition sample_row_101 :: paper_info where
  "sample_row_101 =
     \<lparr>PubmedID = Str ''101'', Title = Str ''Trial A'', Publication_Date = Str ''2021'',
      Non_academic_Authors = [Str ''Doe John''],
      Company_Affiliations = [Str ''XYZ Pharma Inc, contact: a.b@xyz.com''],
      Corresponding_Author_Email = ''a.b@xyz.com''\<rparr>"

definition sample_row_103 :: paper_info where
  "sample_row_103 =
     \<lparr>PubmedID = Str ''103'', Title = Str ''Study C'', Publication_Date = Str ''2023'',
      Non_academic_Authors = [Str ''Roe Ann''],
      Company_Affiliations = [Str ''Acme Biotech Ltd''],
      Corresponding_Author_Email = []\<rparr>"

text \<open>
  A paper whose first author works at a company and whose second author has an empty list
  of affiliations, and the dictionary as it stands when the second author raises.
\<close>

definition sample_cut_short :: pyval where
  "sample_cut_short =
     sample_record ''Report D'' ''2024''
       [sample_author ''Doe'' ''John'' [''XYZ Pharma Inc, contact: a.b@xyz.com''],
        sample_author ''Moe'' ''Max'' []]"

definition sample_row_cut_short :: paper_info where
  "sample_row_cut_short =
     \<lparr>PubmedID = Str ''104'', Title = Str ''Report D'', Publication_Date = Str ''2024'',
      Non_academic_Authors = [Str ''Doe John''],
      Company_Affiliations = [Str ''XYZ Pharma Inc, contact: a.b@xyz.com''],
      Corresponding_Author_Email = ''a.b@xyz.com''\<rparr>"

text \<open>
  The authors whose step the loop completes: the authors before the first one that
  raises, all of them when none does.
\<close>

fun processed_authors :: "paper_info \<Rightarrow> pyval list \<Rightarrow> pyval list" where
  "processed_authors info [] = []"
| "processed_authors info (author # authors) =
     (case author_step info author of
        (info', Some e) \<Rightarrow> []
      | (info', None) \<Rightarrow> author # processed_authors info' authors)"

text \<open>
  Two company authors with an email each, in a paper where both are processed and in a
  paper where an author with an empty list of affiliations stands between them.
\<close>

definition sample_two_emails :: pyval where
  "sample_two_emails =
     sample_record ''Note E'' ''2025''
       [sample_author ''Doe'' ''John'' [''XYZ Pharma Inc, contact: a.b@xyz.com''],
        sample_author ''Roe'' ''Ann'' [''Acme Biotech Ltd, c.d@acme.org'']]"

definition sample_two_emails_cut :: pyval where
  "sample_two_emails_cut =
     sample_record ''Note F'' ''2025''
       [sample_author ''Doe'' ''John'' [''XYZ Pharma Inc, contact: a.b@xyz.com''],
        sample_author ''Moe'' ''Max'' [],
        sample_author ''Roe'' ''Ann'' [''Acme Biotech Ltd, c.d@acme.org'']]"

text \<open>A paper of a company author without an email and a university author with one.\<close>

definition sample_academic_email :: pyval where
  "sample_academic_email =
     sample_record ''Review G'' ''2020''
       [sample_author ''Roe'' ''Ann'' [''Acme Biotech Ltd''],
        sample_author ''Poe'' ''Eve'' [''Department of Biology, University of X, eve@uni.edu'']]"

text \<open>
  A company author with a last name and no first name, and a paper of a company author,
  an author with an empty list of affiliations and a university author with an email.
\<close>

definition sample_author_no_forename :: pyval where
  "sample_author_no_forename =
     Dct [(''LastName'', Str ''Doe''),
          (''AffiliationInfo'', Lst [Dct [(''Affiliation'', Str ''Acme Pharma Inc'')]])]"

definition sample_academic_unreached :: pyval where
  "sample_academic_unreached =
     sample_record ''Review H'' ''2018''
       [sample_author ''Roe'' ''Ann'' [''Acme Biotech Ltd''],
        sample_author ''Moe'' ''Max'' [],
        sample_author ''Poe'' ''Eve'' [''Department of Biology, University of X, eve@uni.edu'']]"

text \<open>The definitions a concrete run unfolds.\<close>

lemmas run_defs =
  extract_paper_details_def extract_record_def extract_body_def record_article_def
  article_authors_def record_authors_def author_step_def author_email_def first_affiliation_def
  author_name_def is_non_academic_def scan_email_def NON_ACADEMIC_KEYWORDS_def
  ACADEMIC_KEYWORDS_def email_pattern_def email_char_def word_char_def at_sign_def
  new_paper_info_def sample_record_def sample_article_def sample_author_def
  sample_esearch_def sample_efetch_def fetch_papers_def sample_row_101_def sample_row_103_def
  sample_cut_short_def sample_row_cut_short_def sample_two_emails_def sample_two_emails_cut_def
  sample_academic_email_def sample_author_no_forename_def sample_academic_unreached_def

section \<open>The email pattern finds the first email-shaped substring\<close>

lemma rx_plus_only:
  "rx_match [Plus p] s = (if takeWhile p s = [] then None else Some (takeWhile p s))"
  by (induction s) auto

lemma rx_local_at_domain:
  assumes "\<And>c. q c \<Longrightarrow> \<not> p c"
  shows "rx_match [Plus p, One q, Plus p] s =
     (if takeWhile p s = [] then None
      else (case dropWhile p s of
              [] \<Rightarrow> None
            | c # d \<Rightarrow> if q c \<and> takeWhile p d \<noteq> [] then Some (takeWhile p s @ c # takeWhile p d) else None))"
proof (induction s)
  case Nil
  then show ?case by simp
next
  case (Cons a s)
  show ?case
  proof (cases "p a")
    case False
    then show ?thesis by simp
  next
    case True
    show ?thesis
    proof (cases "takeWhile p s = []")
      case e: True
      then have d: "dropWhile p s = s"
        by (metis append_Nil takeWhile_dropWhile_id)
      show ?thesis using True e d Cons
        by (auto simp: rx_plus_only split: list.splits)
    next
      case ne: False
      then obtain b s' where s: "s = b # s'" and pb: "p b"
        by (cases s) (auto split: if_splits)
      then have nq: "\<not> q b" using assms by blast
      have fallback: "rx_match [One q, Plus p] s = None"
        using s nq by simp
      have tw: "takeWhile p (a # s) = a # takeWhile p s" and dw: "dropWhile p (a # s) = dropWhile p s"
        using True by simp_all
      have step: "rx_match [Plus p, One q, Plus p] (a # s) =
          (case rx_match [Plus p, One q, Plus p] s of Some m \<Rightarrow> Some (a # m) | None \<Rightarrow> None)"
        using True fallback by (simp split: option.splits)
      show ?thesis
        unfolding step Cons.IH tw dw using ne
        by (cases "dropWhile p s") (simp_all del: dropWhile_eq_Nil_conv)
    qed
  qed
qed

lemma at_not_email_char: "at_sign c \<Longrightarrow> \<not> email_char c"
  by (auto simp: at_sign_def email_char_def word_char_def)

lemma rx_match_email: "rx_match email_pattern s = email_at s"
  unfolding email_pattern_def email_at_def
  by (rule rx_local_at_domain) (rule at_not_email_char)


lemma email_at_sound:
  assumes "email_at s = Some m"
  shows "\<exists>post. s = m @ post \<and> email_shaped m"
proof -
  let ?l = "takeWhile email_char s"
  from assms have l: "?l \<noteq> []"
    by (auto simp: email_at_def split: if_splits)
  from assms l obtain c d where dw: "dropWhile email_char s = c # d"
    by (cases "dropWhile email_char s") (auto simp: email_at_def simp del: dropWhile_eq_Nil_conv)
  from assms l dw have c: "at_sign c" and d: "takeWhile email_char d \<noteq> []"
    and m: "m = ?l @ c # takeWhile email_char d"
    by (auto simp: email_at_def split: if_splits)
  have "s = ?l @ c # d" using dw by (metis takeWhile_dropWhile_id)
  also have "\<dots> = ?l @ c # (takeWhile email_char d @ dropWhile email_char d)" by simp
  finally have s: "s = m @ dropWhile email_char d" using m by simp
  have "email_shaped m"
    unfolding email_shaped_def
  proof (intro exI conjI)
    show "m = ?l @ CHR ''@'' # takeWhile email_char d" using m c by (simp add: at_sign_def)
    show "?l \<noteq> []" by (rule l)
    show "takeWhile email_char d \<noteq> []" by (rule d)
    show "\<forall>c\<in>set ?l. email_char c" by (auto dest: set_takeWhileD)
    show "\<forall>c\<in>set (takeWhile email_char d). email_char c" by (auto dest: set_takeWhileD)
  qed
  with s show ?thesis by blast
qed

lemma email_at_complete:
  assumes "email_shaped m"
  shows "\<exists>m'. email_at (m @ post) = Some m' \<and> length m \<le> length m'"
proof -
  from assms obtain l d where m: "m = l @ CHR ''@'' # d" and l: "l \<noteq> []" and d: "d \<noteq> []"
    and pl: "\<forall>c\<in>set l. email_char c" and pd: "\<forall>c\<in>set d. email_char c"
    unfolding email_shaped_def by blast
  have na: "\<not> email_char CHR ''@''"
    using at_not_email_char [of "CHR ''@''"] by (simp add: at_sign_def)
  have tw: "takeWhile email_char (m @ post) = l"
    using pl na by (simp add: m takeWhile_append2)
  have dw: "dropWhile email_char (m @ post) = CHR ''@'' # d @ post"
    using pl na by (simp add: m dropWhile_append2)
  have twd: "takeWhile email_char (d @ post) = d @ takeWhile email_char post"
    using pd by (simp add: takeWhile_append2)
  have "email_at (m @ post) = Some (l @ CHR ''@'' # d @ takeWhile email_char post)"
    using l d by (simp add: email_at_def tw dw twd at_sign_def)
  then show ?thesis by (simp add: m)
qed

lemma re_search_Some:
  "re_search r s = Some m \<Longrightarrow>
   \<exists>pre rest. s = pre @ rest \<and> rx_match r rest = Some m \<and>
     (\<forall>pre' rest'. s = pre' @ rest' \<and> length pre' < length pre \<longrightarrow> rx_match r rest' = None)"
proof (induction s)
  case Nil
  then show ?case by simp
next
  case (Cons c cs)
  show ?case
  proof (cases "rx_match r (c # cs)")
    case (Some m')
    with Cons.prems have "rx_match r (c # cs) = Some m" by simp
    then have "c # cs = [] @ (c # cs) \<and> rx_match r (c # cs) = Some m \<and>
      (\<forall>pre' rest'. c # cs = pre' @ rest' \<and> length pre' < length ([]::string) \<longrightarrow> rx_match r rest' = None)"
      by simp
    then show ?thesis by blast
  next
    case None
    with Cons.prems have "re_search r cs = Some m" by simp
    from Cons.IH [OF this] obtain pre rest where cs: "cs = pre @ rest"
      and mt: "rx_match r rest = Some m"
      and least: "\<forall>pre' rest'. cs = pre' @ rest' \<and> length pre' < length pre \<longrightarrow> rx_match r rest' = None"
      by blast
    have "\<forall>pre' rest'. c # cs = pre' @ rest' \<and> length pre' < length (c # pre) \<longrightarrow> rx_match r rest' = None"
    proof (intro allI impI)
      fix pre' rest'
      assume h: "c # cs = pre' @ rest' \<and> length pre' < length (c # pre)"
      show "rx_match r rest' = None"
      proof (cases pre')
        case Nil
        with h None show ?thesis by simp
      next
        case (Cons x xs)
        with h have "cs = xs @ rest'" and "length xs < length pre" by simp_all
        with least show ?thesis by blast
      qed
    qed
    moreover have "c # cs = (c # pre) @ rest" using cs by simp
    ultimately show ?thesis using mt by blast
  qed
qed

lemma re_search_None:
  "re_search r s = None \<Longrightarrow> s = pre @ rest \<Longrightarrow> rx_match r rest = None"
proof (induction s arbitrary: pre)
  case Nil
  then show ?case by simp
next
  case (Cons c cs)
  from Cons.prems(1) have here: "rx_match r (c # cs) = None" and later: "re_search r cs = None"
    by (auto split: option.splits)
  show ?case
  proof (cases pre)
    case Nil
    with Cons.prems(2) here show ?thesis by simp
  next
    case (Cons x xs)
    with Cons.prems(2) have "cs = xs @ rest" by simp
    with later show ?thesis by (rule Cons.IH)
  qed
qed

lemma re_search_email_first:
  assumes "re_search email_pattern s = Some m"
  shows "first_email_shaped s m"
proof -
  from re_search_Some [OF assms] obtain pre rest where s: "s = pre @ rest"
    and mt: "rx_match email_pattern rest = Some m"
    and least: "\<forall>pre' rest'. s = pre' @ rest' \<and> length pre' < length pre \<longrightarrow>
                  rx_match email_pattern rest' = None"
    by blast
  from mt have at: "email_at rest = Some m" by (simp add: rx_match_email)
  from email_at_sound [OF at] obtain post where rest: "rest = m @ post" and sh: "email_shaped m"
    by blast
  have "\<forall>pre' m' post'. s = pre' @ m' @ post' \<and> email_shaped m' \<longrightarrow>
          length pre < length pre' \<or> (length pre = length pre' \<and> length m' \<le> length m)"
  proof (intro allI impI)
    fix pre' m' post'
    assume h: "s = pre' @ m' @ post' \<and> email_shaped m'"
    from email_at_complete [of m' post'] h obtain m'' where
      m'': "email_at (m' @ post') = Some m''" and len: "length m' \<le> length m''"
      by blast
    have notless: "\<not> length pre' < length pre"
      using least h m'' by (auto simp: rx_match_email)
    show "length pre < length pre' \<or> (length pre = length pre' \<and> length m' \<le> length m)"
    proof (cases "length pre = length pre'")
      case True
      with h s have "rest = m' @ post'" by simp
      with at m'' have "m'' = m" by simp
      with len True show ?thesis by simp
    next
      case False
      with notless show ?thesis by simp
    qed
  qed
  with s rest sh show ?thesis unfolding first_email_shaped_def by blast
qed

lemma re_search_email_none:
  assumes "re_search email_pattern s = None"
  shows "\<not> (\<exists>pre m post. s = pre @ m @ post \<and> email_shaped m)"
proof
  assume "\<exists>pre m post. s = pre @ m @ post \<and> email_shaped m"
  then obtain pre m post where s: "s = pre @ m @ post" and sh: "email_shaped m" by blast
  from re_search_None [OF assms s] have "email_at (m @ post) = None"
    by (simp add: rx_match_email)
  with email_at_complete [OF sh, of post] show False by simp
qed


lemma str_contains_sublist: "str_contains k s = sublist k s"
  by (induction s) (simp_all add: sublist_Cons_right)

lemma first_email_shaped_unique:
  assumes "first_email_shaped s m1" and "first_email_shaped s m2"
  shows "m1 = m2"
proof -
  from assms(1) obtain pre1 post1 where s1: "s = pre1 @ m1 @ post1" and sh1: "email_shaped m1"
    and least1: "\<forall>pre' m' post'. s = pre' @ m' @ post' \<and> email_shaped m' \<longrightarrow>
           length pre1 < length pre' \<or> (length pre1 = length pre' \<and> length m' \<le> length m1)"
    unfolding first_email_shaped_def by blast
  from assms(2) obtain pre2 post2 where s2: "s = pre2 @ m2 @ post2" and sh2: "email_shaped m2"
    and least2: "\<forall>pre' m' post'. s = pre' @ m' @ post' \<and> email_shaped m' \<longrightarrow>
           length pre2 < length pre' \<or> (length pre2 = length pre' \<and> length m' \<le> length m2)"
    unfolding first_email_shaped_def by blast
  from least1 s2 sh2 have a: "length pre1 < length pre2 \<or> (length pre1 = length pre2 \<and> length m2 \<le> length m1)"
    by blast
  from least2 s1 sh1 have b: "length pre2 < length pre1 \<or> (length pre2 = length pre1 \<and> length m1 \<le> length m2)"
    by blast
  from a b have lp: "length pre1 = length pre2" and lm: "length m1 = length m2" by auto
  from s1 s2 lp have "m1 @ post1 = m2 @ post2" by (metis append_eq_append_conv)
  with lm show ?thesis by simp
qed

lemma re_search_email_iff: "re_search email_pattern s = Some m \<longleftrightarrow> first_email_shaped s m"
proof
  assume "re_search email_pattern s = Some m"
  then show "first_email_shaped s m" by (rule re_search_email_first)
next
  assume f: "first_email_shaped s m"
  then have "\<exists>pre m post. s = pre @ m @ post \<and> email_shaped m"
    unfolding first_email_shaped_def by blast
  with re_search_email_none [of s] obtain m' where m': "re_search email_pattern s = Some m'"
    by (cases "re_search email_pattern s") auto
  then have "first_email_shaped s m'" by (rule re_search_email_first)
  then have "m' = m" using f by (rule first_email_shaped_unique)
  with m' show "re_search email_pattern s = Some m" by simp
qed

lemma email_shaped_has_at: "email_shaped m \<Longrightarrow> s = pre @ m @ post \<Longrightarrow> str_contains ''@'' s"
proof -
  assume "email_shaped m" and s: "s = pre @ m @ post"
  then obtain l d where "m = l @ CHR ''@'' # d" unfolding email_shaped_def by blast
  with s have "s = (pre @ l) @ ''@'' @ (d @ post)" by simp
  then have "sublist ''@'' s" unfolding sublist_def by blast
  then show ?thesis by (simp add: str_contains_sublist)
qed

lemma re_search_email_has_at: "re_search email_pattern s = Some m \<Longrightarrow> str_contains ''@'' s"
  using re_search_email_first [of s m] email_shaped_has_at
  unfolding first_email_shaped_def by blast

lemma scan_email_Str:
  "scan_email info (Str s) =
     (case re_search email_pattern s of
        Some m \<Rightarrow> (info\<lparr>Corresponding_Author_Email := m\<rparr>, None)
      | None \<Rightarrow> (info, None))"
  using re_search_email_has_at [of s]
  by (cases "re_search email_pattern s") (auto simp: scan_email_def)

section \<open>One step of the loop\<close>

lemma first_affiliation_in:
  "first_affiliation author = Inr a \<Longrightarrow> py_in ''AffiliationInfo'' author"
  by (cases author) (auto simp: first_affiliation_def split: option.splits)

lemma scan_email_lists:
  "Non_academic_Authors (fst (scan_email info a)) = Non_academic_Authors info"
  "Company_Affiliations (fst (scan_email info a)) = Company_Affiliations info"
  "PubmedID (fst (scan_email info a)) = PubmedID info"
  "Title (fst (scan_email info a)) = Title info"
  "Publication_Date (fst (scan_email info a)) = Publication_Date info"
  by (auto simp: scan_email_def split: pyval.splits option.splits)

lemma scan_email_raised:
  "scan_email info a = (info', Some e) \<Longrightarrow> info' = info"
  by (auto simp: scan_email_def split: pyval.splits option.splits if_splits)

lemma scan_email_done:
  "scan_email info a = (info', None) \<Longrightarrow>
   info' = (case a of Str s \<Rightarrow> (case re_search email_pattern s of
                                  Some m \<Rightarrow> info\<lparr>Corresponding_Author_Email := m\<rparr>
                                | None \<Rightarrow> info)
                    | Lst xs \<Rightarrow> info | Dct kvs \<Rightarrow> info)"
proof (cases a)
  case (Str s)
  assume "scan_email info a = (info', None)"
  with Str show ?thesis by (auto simp: scan_email_Str split: option.splits)
qed (auto simp: scan_email_def split: if_splits)

text \<open>What a step does to the two lists: nothing, or one name and one affiliation at their ends.\<close>

lemma author_step_lists:
  assumes "author_step info author = (info', r)"
  shows "(Non_academic_Authors info' = Non_academic_Authors info \<and>
          Company_Affiliations info' = Company_Affiliations info) \<or>
         (\<exists>name affiliation. first_affiliation author = Inr affiliation \<and>
            author_name author = Inr name \<and> is_non_academic affiliation \<and>
            Non_academic_Authors info' = Non_academic_Authors info @ [name] \<and>
            Company_Affiliations info' = Company_Affiliations info @ [affiliation])"
proof (cases "py_in ''AffiliationInfo'' author")
  case False
  with assms show ?thesis by (simp add: author_step_def)
next
  case True
  show ?thesis
  proof (cases "first_affiliation author")
    case (Inl e)
    with assms True show ?thesis by (simp add: author_step_def)
  next
    case (Inr affiliation)
    show ?thesis
    proof (cases "is_non_academic affiliation")
      case False
      with assms True Inr have "info' = fst (scan_email info affiliation)"
        by (auto simp: author_step_def)
      then show ?thesis by (simp add: scan_email_lists)
    next
      case flagged: True
      show ?thesis
      proof (cases "author_name author")
        case (Inl e)
        with assms True Inr flagged show ?thesis by (simp add: author_step_def)
      next
        case name: (Inr name)
        with assms True Inr flagged have
          "info' = fst (scan_email
             (info\<lparr>Non_academic_Authors := Non_academic_Authors info @ [name],
                    Company_Affiliations := Company_Affiliations info @ [affiliation]\<rparr>) affiliation)"
          by (auto simp: author_step_def)
        with Inr name flagged show ?thesis by (simp add: scan_email_lists)
      qed
    qed
  qed
qed

lemma author_step_kept:
  assumes "author_step info author = (info', r)"
  shows "PubmedID info' = PubmedID info \<and> Title info' = Title info \<and>
         Publication_Date info' = Publication_Date info"
proof -
  have "info' = fst (author_step info author)" using assms by simp
  then show ?thesis
    by (simp add: author_step_def scan_email_lists split: sum.splits)
qed

text \<open>The email field after a step that raised nothing, and after one that raised.\<close>

lemma author_step_email_done:
  assumes "author_step info author = (info', None)"
  shows "Corresponding_Author_Email info' =
           (case author_email author of
              None \<Rightarrow> Corresponding_Author_Email info
            | Some m \<Rightarrow> m)"
proof (cases "py_in ''AffiliationInfo'' author")
  case False
  then have "first_affiliation author = Inl KeyError \<or> first_affiliation author = Inl TypeError"
    by (cases author) (auto simp: first_affiliation_def split: option.splits)
  with assms False show ?thesis by (auto simp: author_step_def author_email_def)
next
  case True
  show ?thesis
  proof (cases "first_affiliation author")
    case (Inl e)
    with assms True show ?thesis by (simp add: author_step_def)
  next
    case (Inr affiliation)
    from assms True Inr obtain info0 where
      sc: "scan_email info0 affiliation = (info', None)" and
      e0: "Corresponding_Author_Email info0 = Corresponding_Author_Email info"
      by (auto simp: author_step_def split: if_splits sum.splits)
    from scan_email_done [OF sc] e0 Inr show ?thesis
      by (cases affiliation)
         (auto simp: author_email_def split: option.splits dest: re_search_email_has_at)
  qed
qed

lemma author_step_email_raised:
  assumes "author_step info author = (info', Some e)"
  shows "Corresponding_Author_Email info' = Corresponding_Author_Email info"
  using assms
  by (auto simp: author_step_def split: if_splits sum.splits dest!: scan_email_raised)

section \<open>The loop over the authors\<close>

lemma author_loop_append:
  "author_loop info (xs @ ys) =
     (case author_loop info xs of
        (info', Some e) \<Rightarrow> (info', Some e)
      | (info', None) \<Rightarrow> author_loop info' ys)"
  by (induction xs arbitrary: info) (auto split: prod.splits option.splits)

lemma author_loop_kept:
  "author_loop info authors = (info', r) \<Longrightarrow>
   PubmedID info' = PubmedID info \<and> Title info' = Title info \<and>
   Publication_Date info' = Publication_Date info"
proof (induction authors arbitrary: info)
  case Nil
  then show ?case by simp
next
  case (Cons a authors)
  obtain info1 r1 where st: "author_step info a = (info1, r1)" by (cases "author_step info a")
  note k = author_step_kept [OF st]
  show ?case
  proof (cases r1)
    case None
    with Cons.prems st have "author_loop info1 authors = (info', r)" by simp
    from Cons.IH [OF this] k show ?thesis by simp
  next
    case (Some e)
    with Cons.prems st have "info' = info1" by simp
    with k show ?thesis by simp
  qed
qed

text \<open>
  The two lists grow in lockstep: the loop appends, for a subsequence of the authors, the
  name of each to one list and its first affiliation to the other.
\<close>

lemma author_loop_lockstep:
  "author_loop info authors = (info', r) \<Longrightarrow>
   \<exists>flagged names affiliations.
     subseq flagged authors \<and>
     Non_academic_Authors info' = Non_academic_Authors info @ names \<and>
     Company_Affiliations info' = Company_Affiliations info @ affiliations \<and>
     list_all2 (\<lambda>author name. author_name author = Inr name) flagged names \<and>
     list_all2 (\<lambda>author affiliation. first_affiliation author = Inr affiliation \<and>
                                       is_non_academic affiliation) flagged affiliations"
proof (induction authors arbitrary: info)
  case Nil
  then have "info' = info" by simp
  then have "subseq [] ([]::pyval list) \<and>
     Non_academic_Authors info' = Non_academic_Authors info @ [] \<and>
     Company_Affiliations info' = Company_Affiliations info @ [] \<and>
     list_all2 (\<lambda>author name. author_name author = Inr name) [] [] \<and>
     list_all2 (\<lambda>author affiliation. first_affiliation author = Inr affiliation \<and>
                                       is_non_academic affiliation) [] []"
    by simp
  then show ?case by blast
next
  case (Cons a authors)
  obtain info1 r1 where st: "author_step info a = (info1, r1)" by (cases "author_step info a")
  have "\<exists>flagged names affiliations.
     subseq flagged authors \<and>
     Non_academic_Authors info' = Non_academic_Authors info1 @ names \<and>
     Company_Affiliations info' = Company_Affiliations info1 @ affiliations \<and>
     list_all2 (\<lambda>author name. author_name author = Inr name) flagged names \<and>
     list_all2 (\<lambda>author affiliation. first_affiliation author = Inr affiliation \<and>
                                       is_non_academic affiliation) flagged affiliations"
  proof (cases r1)
    case None
    with Cons.prems st have "author_loop info1 authors = (info', r)" by simp
    then show ?thesis by (rule Cons.IH)
  next
    case (Some e)
    with Cons.prems st have "info' = info1" by simp
    then have "subseq [] authors \<and>
       Non_academic_Authors info' = Non_academic_Authors info1 @ [] \<and>
       Company_Affiliations info' = Company_Affiliations info1 @ [] \<and>
       list_all2 (\<lambda>author name. author_name author = Inr name) [] [] \<and>
       list_all2 (\<lambda>author affiliation. first_affiliation author = Inr affiliation \<and>
                                         is_non_academic affiliation) [] []"
      by simp
    then show ?thesis by blast
  qed
  then obtain flagged names affiliations where
    sub: "subseq flagged authors" and
    n: "Non_academic_Authors info' = Non_academic_Authors info1 @ names" and
    c: "Company_Affiliations info' = Company_Affiliations info1 @ affiliations" and
    ln: "list_all2 (\<lambda>author name. author_name author = Inr name) flagged names" and
    lc: "list_all2 (\<lambda>author affiliation. first_affiliation author = Inr affiliation \<and>
                                       is_non_academic affiliation) flagged affiliations"
    by blast
  from author_step_lists [OF st] show ?case
  proof
    assume same: "Non_academic_Authors info1 = Non_academic_Authors info \<and>
          Company_Affiliations info1 = Company_Affiliations info"
    have "subseq flagged (a # authors)" using sub by (rule list_emb_Cons)
    with same n c ln lc show ?thesis by auto
  next
    assume "\<exists>name affiliation. first_affiliation a = Inr affiliation \<and>
            author_name a = Inr name \<and> is_non_academic affiliation \<and>
            Non_academic_Authors info1 = Non_academic_Authors info @ [name] \<and>
            Company_Affiliations info1 = Company_Affiliations info @ [affiliation]"
    then obtain name affiliation where fa: "first_affiliation a = Inr affiliation"
      and an: "author_name a = Inr name" and na: "is_non_academic affiliation"
      and n1: "Non_academic_Authors info1 = Non_academic_Authors info @ [name]"
      and c1: "Company_Affiliations info1 = Company_Affiliations info @ [affiliation]"
      by blast
    have "subseq (a # flagged) (a # authors) \<and>
     Non_academic_Authors info' = Non_academic_Authors info @ (name # names) \<and>
     Company_Affiliations info' = Company_Affiliations info @ (affiliation # affiliations) \<and>
     list_all2 (\<lambda>author name. author_name author = Inr name) (a # flagged) (name # names) \<and>
     list_all2 (\<lambda>author affiliation. first_affiliation author = Inr affiliation \<and>
                                       is_non_academic affiliation) (a # flagged) (affiliation # affiliations)"
      using sub n c ln lc fa an na n1 c1 by simp
    then show ?thesis by blast
  qed
qed

text \<open>
  The email field after the loop is the email of the last author that gave one, among the
  authors whose step was completed: all of them when nothing was raised.
\<close>

lemma author_loop_email:
  "author_loop info authors = (info', r) \<Longrightarrow>
   \<exists>n \<le> length authors.
     Corresponding_Author_Email info' =
       last (Corresponding_Author_Email info # List.map_filter author_email (take n authors)) \<and>
     (r = None \<longrightarrow> n = length authors) \<and>
     (r \<noteq> None \<longrightarrow> n < length authors)"
proof (induction authors arbitrary: info)
  case Nil
  then show ?case by simp
next
  case (Cons a authors)
  obtain info1 r1 where st: "author_step info a = (info1, r1)" by (cases "author_step info a")
  show ?case
  proof (cases r1)
    case (Some e)
    with Cons.prems st have i: "info' = info1" and r: "r = Some e" by simp_all
    from author_step_email_raised st Some i
    have "Corresponding_Author_Email info' = Corresponding_Author_Email info" by blast
    then have "0 \<le> length (a # authors) \<and> Corresponding_Author_Email info' =
       last (Corresponding_Author_Email info # List.map_filter author_email (take 0 (a # authors))) \<and>
       (r = None \<longrightarrow> 0 = length (a # authors)) \<and> (r \<noteq> None \<longrightarrow> 0 < length (a # authors))"
      using r by simp
    then show ?thesis by blast
  next
    case None
    with Cons.prems st have "author_loop info1 authors = (info', r)" by simp
    from Cons.IH [OF this] obtain n where n: "n \<le> length authors"
      and e: "Corresponding_Author_Email info' =
       last (Corresponding_Author_Email info1 # List.map_filter author_email (take n authors))"
      and full: "r = None \<longrightarrow> n = length authors" and part: "r \<noteq> None \<longrightarrow> n < length authors"
      by blast
    from author_step_email_done st None
    have e1: "Corresponding_Author_Email info1 =
           (case author_email a of None \<Rightarrow> Corresponding_Author_Email info | Some m \<Rightarrow> m)"
      by blast
    have "Corresponding_Author_Email info' =
       last (Corresponding_Author_Email info # List.map_filter author_email (take (Suc n) (a # authors)))"
      using e e1 by (cases "author_email a") simp_all
    with n full part have "Suc n \<le> length (a # authors) \<and> Corresponding_Author_Email info' =
       last (Corresponding_Author_Email info # List.map_filter author_email (take (Suc n) (a # authors))) \<and>
       (r = None \<longrightarrow> Suc n = length (a # authors)) \<and> (r \<noteq> None \<longrightarrow> Suc n < length (a # authors))"
      by simp
    then show ?thesis by blast
  qed
qed

section \<open>One record and the pipeline\<close>

lemma record_authors_Inr:
  "record_authors records = Inr authors \<Longrightarrow>
   \<exists>article title year.
     record_article records = Inr article \<and>
     subscript_key article ''ArticleTitle'' = Inr title \<and>
     py_path article [Key ''Journal'', Key ''JournalIssue'', Key ''PubDate'', Key ''Year''] = Inr year \<and>
     article_authors article = Inr authors"
  by (auto simp: record_authors_def simp del: py_path.simps split: sum.splits)

lemma extract_body_authors:
  assumes "record_authors records = Inr authors"
  shows "\<exists>title year. extract_body records info =
      author_loop (info\<lparr>Title := title, Publication_Date := year\<rparr>) authors"
proof -
  from record_authors_Inr [OF assms] obtain article title year where
    "record_article records = Inr article"
    "subscript_key article ''ArticleTitle'' = Inr title"
    "py_path article [Key ''Journal'', Key ''JournalIssue'', Key ''PubDate'', Key ''Year''] = Inr year"
    "article_authors article = Inr authors"
    by blast
  then have "extract_body records info =
      author_loop (info\<lparr>Title := title, Publication_Date := year\<rparr>) authors"
    by (simp add: extract_body_def del: py_path.simps)
  then show ?thesis by blast
qed

lemma extract_body_no_authors:
  "record_authors records = Inl e \<Longrightarrow>
   snd (extract_body records info) = Some e \<and>
   Non_academic_Authors (fst (extract_body records info)) = Non_academic_Authors info \<and>
   Company_Affiliations (fst (extract_body records info)) = Company_Affiliations info \<and>
   Corresponding_Author_Email (fst (extract_body records info)) = Corresponding_Author_Email info"
  by (auto simp: record_authors_def extract_body_def simp del: py_path.simps split: sum.splits)

lemma extract_body_PubmedID:
  "PubmedID (fst (extract_body records info)) = PubmedID info"
proof (cases "record_authors records")
  case (Inl e)
  then show ?thesis
    by (auto simp: record_authors_def extract_body_def simp del: py_path.simps split: sum.splits)
next
  case (Inr authors)
  from extract_body_authors [OF this, of info] obtain title year where
    b: "extract_body records info = author_loop (info\<lparr>Title := title, Publication_Date := year\<rparr>) authors"
    by blast
  obtain info' r where l: "author_loop (info\<lparr>Title := title, Publication_Date := year\<rparr>) authors = (info', r)"
    by (cases "author_loop (info\<lparr>Title := title, Publication_Date := year\<rparr>) authors")
  from author_loop_kept [OF l] b l show ?thesis by simp
qed

lemma extract_record_Some:
  "extract_record pmid records = Some row \<Longrightarrow>
   row = fst (extract_body records (new_paper_info pmid)) \<and> Non_academic_Authors row \<noteq> [] \<and>
   PubmedID row = pmid"
  by (auto simp: extract_record_def Let_def extract_body_PubmedID new_paper_info_def split: if_splits)

lemma fetch_loop_rows:
  "fetch_loop efetch pmids results = Inr rows \<Longrightarrow>
   \<exists>new. rows = results @ new \<and> subseq (map PubmedID new) pmids \<and>
         (\<forall>row \<in> set new. Non_academic_Authors row \<noteq> [])"
proof (induction pmids arbitrary: results)
  case Nil
  then show ?case by simp
next
  case (Cons pmid pmids)
  show ?case
  proof (cases "extract_paper_details efetch pmid")
    case (Inl e)
    with Cons.prems show ?thesis by simp
  next
    case (Inr paper_data)
    show ?thesis
    proof (cases paper_data)
      case None
      with Cons.prems Inr have "fetch_loop efetch pmids results = Inr rows" by simp
      from Cons.IH [OF this] obtain new where "rows = results @ new"
        "subseq (map PubmedID new) pmids" "\<forall>row \<in> set new. Non_academic_Authors row \<noteq> []"
        by blast
      moreover then have "subseq (map PubmedID new) (pmid # pmids)" by (intro list_emb_Cons)
      ultimately show ?thesis by blast
    next
      case (Some row)
      with Inr obtain records where "extract_record pmid records = Some row"
        by (auto simp: extract_paper_details_def split: sum.splits)
      from extract_record_Some [OF this] have id: "PubmedID row = pmid"
        and ne: "Non_academic_Authors row \<noteq> []" by blast+
      from Cons.prems Inr Some have "fetch_loop efetch pmids (results @ [row]) = Inr rows" by simp
      from Cons.IH [OF this] obtain new where new: "rows = (results @ [row]) @ new"
        "subseq (map PubmedID new) pmids" "\<forall>row \<in> set new. Non_academic_Authors row \<noteq> []"
        by blast
      have "rows = results @ (row # new)" using new(1) by simp
      moreover have "subseq (map PubmedID (row # new)) (pmid # pmids)"
        using new(2) id by simp
      moreover have "\<forall>r \<in> set (row # new). Non_academic_Authors r \<noteq> []"
        using new(3) ne by simp
      ultimately show ?thesis by blast
    qed
  qed
qed

lemma fetch_papers_rows:
  assumes "fetch_papers esearch efetch query = Inr rows"
  shows "\<exists>record pmids. esearch query 20 = Inr record \<and>
           py_get record ''IdList'' (Lst []) = Inr pmids \<and>
           subseq (map PubmedID rows) (py_iter pmids) \<and>
           (\<forall>row \<in> set rows. Non_academic_Authors row \<noteq> [])"
proof -
  from assms obtain found pmids where s: "esearch query 20 = Inr found"
    and g: "py_get found ''IdList'' (Lst []) = Inr pmids"
    and l: "fetch_loop efetch (py_iter pmids) [] = Inr rows"
    by (auto simp: fetch_papers_def split: sum.splits)
  from fetch_loop_rows [OF l] s g show ?thesis by auto
qed

section \<open>Properties of the program\<close>

text \<open>
  C3. For every raw record, the extractor returns a row exactly when the list of flagged
  authors built for that record is not empty, the row being the dictionary built, and
  nothing otherwise; so every row that \<open>fetch_papers\<close> collects has a flagged author.
\<close>

theorem row_returned_iff_flagged:
  "(extract_record pmid records \<noteq> None \<longleftrightarrow>
      Non_academic_Authors (fst (extract_body records (new_paper_info pmid))) \<noteq> []) \<and>
   (extract_record pmid records = Some row \<longrightarrow>
      row = fst (extract_body records (new_paper_info pmid)) \<and> Non_academic_Authors row \<noteq> []) \<and>
   (extract_paper_details efetch pmid = Inr (Some row) \<longrightarrow> Non_academic_Authors row \<noteq> []) \<and>
   (fetch_papers esearch efetch query = Inr rows \<longrightarrow>
      (\<forall>row \<in> set rows. Non_academic_Authors row \<noteq> []))"
proof (intro conjI impI)
  show "extract_record pmid records \<noteq> None \<longleftrightarrow>
      Non_academic_Authors (fst (extract_body records (new_paper_info pmid))) \<noteq> []"
    by (simp add: extract_record_def Let_def)
next
  assume "extract_record pmid records = Some row"
  from extract_record_Some [OF this]
  show "row = fst (extract_body records (new_paper_info pmid))"
    and "Non_academic_Authors row \<noteq> []" by blast+
next
  assume "extract_paper_details efetch pmid = Inr (Some row)"
  then obtain found where "extract_record pmid found = Some row"
    by (auto simp: extract_paper_details_def split: sum.splits)
  from extract_record_Some [OF this] show "Non_academic_Authors row \<noteq> []" by blast
next
  assume "fetch_papers esearch efetch query = Inr rows"
  from fetch_papers_rows [OF this]
  show "\<forall>row \<in> set rows. Non_academic_Authors row \<noteq> []" by blast
qed

theorem row_returned_iff_flagged_witness:
  "fetch_papers sample_esearch sample_efetch ''cancer'' = Inr [sample_row_101, sample_row_103] \<and>
   extract_paper_details sample_efetch (Str ''102'') = Inr None \<and>
   Non_academic_Authors sample_row_101 \<noteq> [] \<and> Non_academic_Authors sample_row_103 \<noteq> []"
proof -
  have run: "fetch_papers sample_esearch sample_efetch ''cancer'' = Inr [sample_row_101, sample_row_103]"
    by (simp add: run_defs)
  have none: "extract_paper_details sample_efetch (Str ''102'') = Inr None"
    by (simp add: run_defs)
  from row_returned_iff_flagged
         [of _ _ _ sample_efetch sample_esearch "''cancer''" "[sample_row_101, sample_row_103]"] run
  have "\<forall>row \<in> set [sample_row_101, sample_row_103]. Non_academic_Authors row \<noteq> []" by blast
  with run none show ?thesis by simp
qed

text \<open>
  C5. The search is asked for at most 20 identifiers: the result depends on the search
  client only through its answer to the request with \<open>retmax = 20\<close>. The rows come from the
  identifiers of that answer, at most one row per identifier and in their order, so there
  are at most as many rows as identifiers, and at most 20 when the search client returns
  no more identifiers than it is asked for.
\<close>

theorem rows_bounded_by_identifiers:
  "(esearch' query 20 = esearch query 20 \<longrightarrow>
      fetch_papers esearch' efetch query = fetch_papers esearch efetch query) \<and>
   (fetch_papers esearch efetch query = Inr rows \<longrightarrow>
      (\<exists>found pmids.
         esearch query 20 = Inr found \<and> py_get found ''IdList'' (Lst []) = Inr pmids \<and>
         subseq (map PubmedID rows) (py_iter pmids) \<and>
         length rows \<le> length (py_iter pmids) \<and>
         ((\<forall>retmax answer ids.
             esearch query retmax = Inr answer \<and> py_get answer ''IdList'' (Lst []) = Inr ids \<longrightarrow>
             length (py_iter ids) \<le> retmax) \<longrightarrow>
          length rows \<le> 20)))"
proof (intro conjI impI)
  assume "esearch' query 20 = esearch query 20"
  then show "fetch_papers esearch' efetch query = fetch_papers esearch efetch query"
    by (simp add: fetch_papers_def)
next
  assume "fetch_papers esearch efetch query = Inr rows"
  from fetch_papers_rows [OF this] obtain found pmids where
    s: "esearch query 20 = Inr found" and g: "py_get found ''IdList'' (Lst []) = Inr pmids"
    and sub: "subseq (map PubmedID rows) (py_iter pmids)"
    by blast
  from sub have "length (map PubmedID rows) \<le> length (py_iter pmids)"
    by (rule list_emb_length)
  then have len: "length rows \<le> length (py_iter pmids)" by simp
  have "(\<forall>retmax answer ids.
             esearch query retmax = Inr answer \<and> py_get answer ''IdList'' (Lst []) = Inr ids \<longrightarrow>
             length (py_iter ids) \<le> retmax) \<longrightarrow> length rows \<le> 20"
  proof
    assume "\<forall>retmax answer ids.
             esearch query retmax = Inr answer \<and> py_get answer ''IdList'' (Lst []) = Inr ids \<longrightarrow>
             length (py_iter ids) \<le> retmax"
    with s g have "length (py_iter pmids) \<le> 20" by blast
    with len show "length rows \<le> 20" by simp
  qed
  with s g sub len show "\<exists>found pmids.
         esearch query 20 = Inr found \<and> py_get found ''IdList'' (Lst []) = Inr pmids \<and>
         subseq (map PubmedID rows) (py_iter pmids) \<and>
         length rows \<le> length (py_iter pmids) \<and>
         ((\<forall>retmax answer ids.
             esearch query retmax = Inr answer \<and> py_get answer ''IdList'' (Lst []) = Inr ids \<longrightarrow>
             length (py_iter ids) \<le> retmax) \<longrightarrow>
          length rows \<le> 20)"
    by blast
qed

theorem rows_bounded_by_identifiers_witness:
  "fetch_papers sample_esearch sample_efetch ''cancer'' = Inr [sample_row_101, sample_row_103] \<and>
   subseq (map PubmedID [sample_row_101, sample_row_103]) [Str ''101'', Str ''102'', Str ''103''] \<and>
   length [sample_row_101, sample_row_103] \<le> 20"
proof -
  have run: "fetch_papers sample_esearch sample_efetch ''cancer'' = Inr [sample_row_101, sample_row_103]"
    by (simp add: run_defs)
  have contract: "\<forall>retmax answer ids.
      sample_esearch ''cancer'' retmax = Inr answer \<and> py_get answer ''IdList'' (Lst []) = Inr ids \<longrightarrow>
      length (py_iter ids) \<le> retmax"
    by (auto simp: sample_esearch_def)
  from rows_bounded_by_identifiers
         [of sample_esearch "''cancer''" sample_esearch sample_efetch "[sample_row_101, sample_row_103]"]
       run
  obtain found pmids where
    "sample_esearch ''cancer'' 20 = Inr found" "py_get found ''IdList'' (Lst []) = Inr pmids"
    "subseq (map PubmedID [sample_row_101, sample_row_103]) (py_iter pmids)"
    "(\<forall>retmax answer ids.
        sample_esearch ''cancer'' retmax = Inr answer \<and> py_get answer ''IdList'' (Lst []) = Inr ids \<longrightarrow>
        length (py_iter ids) \<le> retmax) \<longrightarrow>
     length [sample_row_101, sample_row_103] \<le> 20"
    by blast
  with contract run show ?thesis
    by (auto simp: sample_esearch_def sample_row_101_def sample_row_103_def)
qed

text \<open>
  C10. In every row the extractor returns, the list of flagged names and the list of
  flagged affiliations have the same length, and they come from one subsequence of the
  authors of the record: the name at an index is built from the author whose first
  affiliation stands at that index. This holds also for a row returned after an exception
  has cut the loop short.
\<close>

theorem flagged_lists_in_lockstep:
  assumes "extract_record pmid records = Some row"
  shows "length (Non_academic_Authors row) = length (Company_Affiliations row) \<and>
         (\<exists>authors flagged.
            record_authors records = Inr authors \<and> subseq flagged authors \<and>
            list_all2 (\<lambda>author name. author_name author = Inr name)
              flagged (Non_academic_Authors row) \<and>
            list_all2 (\<lambda>author affiliation. first_affiliation author = Inr affiliation)
              flagged (Company_Affiliations row))"
proof -
  from extract_record_Some [OF assms]
  have row: "row = fst (extract_body records (new_paper_info pmid))"
    and ne: "Non_academic_Authors row \<noteq> []" by blast+
  obtain authors where au: "record_authors records = Inr authors"
  proof (cases "record_authors records")
    case (Inl e)
    from extract_body_no_authors [OF this, of "new_paper_info pmid"] row ne
    show ?thesis by (simp add: new_paper_info_def)
  next
    case (Inr authors)
    then show ?thesis by (rule that)
  qed
  from extract_body_authors [OF au, of "new_paper_info pmid"] obtain title year where
    b: "extract_body records (new_paper_info pmid) =
          author_loop ((new_paper_info pmid)\<lparr>Title := title, Publication_Date := year\<rparr>) authors"
    by blast
  define r where "r = snd (extract_body records (new_paper_info pmid))"
  have l: "author_loop ((new_paper_info pmid)\<lparr>Title := title, Publication_Date := year\<rparr>) authors = (row, r)"
    unfolding r_def row b by simp
  from author_loop_lockstep [OF l] obtain flagged names affiliations where
    sub: "subseq flagged authors" and
    n: "Non_academic_Authors row = names" and
    c: "Company_Affiliations row = affiliations" and
    ln: "list_all2 (\<lambda>author name. author_name author = Inr name) flagged names" and
    lc: "list_all2 (\<lambda>author affiliation. first_affiliation author = Inr affiliation \<and>
                                       is_non_academic affiliation) flagged affiliations"
    by (auto simp: new_paper_info_def)
  from lc have lc': "list_all2 (\<lambda>author affiliation. first_affiliation author = Inr affiliation)
     flagged affiliations"
    by (rule list_all2_mono) simp
  from ln lc have "length names = length affiliations"
    by (simp add: list_all2_lengthD [symmetric])
  with au sub n c ln lc' show ?thesis by blast
qed

theorem flagged_lists_in_lockstep_witness:
  "extract_record (Str ''103'')
     (sample_record ''Study C'' ''2023''
        [sample_author ''Roe'' ''Ann'' [''Acme Biotech Ltd''], sample_author ''Moe'' ''Max'' []]) =
     Some sample_row_103 \<and>
   snd (extract_body
     (sample_record ''Study C'' ''2023''
        [sample_author ''Roe'' ''Ann'' [''Acme Biotech Ltd''], sample_author ''Moe'' ''Max'' []])
     (new_paper_info (Str ''103''))) = Some IndexError \<and>
   length (Non_academic_Authors sample_row_103) = length (Company_Affiliations sample_row_103)"
proof -
  have run: "extract_record (Str ''103'')
     (sample_record ''Study C'' ''2023''
        [sample_author ''Roe'' ''Ann'' [''Acme Biotech Ltd''], sample_author ''Moe'' ''Max'' []]) =
     Some sample_row_103"
    by (simp add: run_defs)
  have raised: "snd (extract_body
     (sample_record ''Study C'' ''2023''
        [sample_author ''Roe'' ''Ann'' [''Acme Biotech Ltd''], sample_author ''Moe'' ''Max'' []])
     (new_paper_info (Str ''103''))) = Some IndexError"
    by (simp add: run_defs)
  from flagged_lists_in_lockstep [OF run] run raised show ?thesis by blast
qed

text \<open>
  C1, as the claim states it, fails: the second author of the sample paper raises an
  IndexError, the exception is swallowed, and the extractor still returns a row, holding
  what was written before the failure.
\<close>

theorem failure_still_returns_row:
  "extract_body sample_cut_short (new_paper_info (Str ''104'')) =
     (sample_row_cut_short, Some IndexError) \<and>
   extract_record (Str ''104'') sample_cut_short = Some sample_row_cut_short"
  by (simp add: run_defs)

section \<open>The authors the loop processes\<close>

lemma scan_email_outcome:
  "snd (scan_email info a) =
     (if py_in ''@'' a then (case a of Str s \<Rightarrow> None | Lst xs \<Rightarrow> Some TypeError | Dct kvs \<Rightarrow> Some TypeError)
      else None)"
  by (simp add: scan_email_def split: pyval.splits option.splits)

lemma author_step_outcome: "snd (author_step info author) = snd (author_step info0 author)"
  by (simp add: author_step_def scan_email_outcome split: sum.splits)

lemma processed_authors_any_info:
  "processed_authors info authors = processed_authors info0 authors"
proof (induction authors arbitrary: info info0)
  case Nil
  show ?case by simp
next
  case (Cons a authors)
  obtain i1 r1 where s1: "author_step info a = (i1, r1)" by (cases "author_step info a")
  obtain i2 r2 where s2: "author_step info0 a = (i2, r2)" by (cases "author_step info0 a")
  from author_step_outcome [of info a info0] s1 s2 have "r1 = r2" by simp
  with s1 s2 Cons.IH [of i1 i2] show ?case by (cases r1) simp_all
qed

lemma processed_authors_prefix: "prefix (processed_authors info authors) authors"
  by (induction authors arbitrary: info) (auto split: prod.splits option.splits)

text \<open>
  The loop completes on the processed authors, and what follows them adds at most one
  failing step: names and affiliations may still be appended, the email is not touched.
\<close>

lemma author_loop_processed:
  "author_loop info authors = (info', r) \<Longrightarrow>
   \<exists>mid names affiliations.
     author_loop info (processed_authors info authors) = (mid, None) \<and>
     Non_academic_Authors info' = Non_academic_Authors mid @ names \<and>
     Company_Affiliations info' = Company_Affiliations mid @ affiliations \<and>
     Corresponding_Author_Email info' = Corresponding_Author_Email mid \<and>
     (r = None \<longleftrightarrow> processed_authors info authors = authors)"
proof (induction authors arbitrary: info)
  case Nil
  then show ?case by simp
next
  case (Cons a authors)
  obtain info1 r1 where st: "author_step info a = (info1, r1)" by (cases "author_step info a")
  show ?case
  proof (cases r1)
    case None
    with Cons.prems st have "author_loop info1 authors = (info', r)" by simp
    from Cons.IH [OF this] st None show ?thesis by simp
  next
    case (Some e)
    with Cons.prems st have i: "info' = info1" and r: "r = Some e" by simp_all
    from author_step_email_raised st Some i
    have em: "Corresponding_Author_Email info' = Corresponding_Author_Email info" by blast
    from author_step_lists [OF st] i obtain names affiliations where
      "Non_academic_Authors info' = Non_academic_Authors info @ names"
      "Company_Affiliations info' = Company_Affiliations info @ affiliations"
      by auto
    with em r st Some show ?thesis by simp
  qed
qed

lemma author_loop_completed_email:
  assumes "author_loop info authors = (info', None)"
  shows "Corresponding_Author_Email info' =
           last (Corresponding_Author_Email info # List.map_filter author_email authors)"
proof -
  from author_loop_email [OF assms] obtain n where
    "Corresponding_Author_Email info' =
       last (Corresponding_Author_Email info # List.map_filter author_email (take n authors))"
    "n = length authors" by blast
  then show ?thesis by simp
qed

lemma author_email_iff:
  "author_email author = Some m \<longleftrightarrow>
     (\<exists>s. first_affiliation author = Inr (Str s) \<and> first_email_shaped s m)"
proof
  assume "author_email author = Some m"
  then obtain s where "first_affiliation author = Inr (Str s)" "re_search email_pattern s = Some m"
    by (auto simp: author_email_def split: sum.splits pyval.splits if_splits)
  then show "\<exists>s. first_affiliation author = Inr (Str s) \<and> first_email_shaped s m"
    by (auto simp: re_search_email_iff)
next
  assume "\<exists>s. first_affiliation author = Inr (Str s) \<and> first_email_shaped s m"
  then obtain s where f: "first_affiliation author = Inr (Str s)" and "first_email_shaped s m"
    by blast
  then have r: "re_search email_pattern s = Some m" by (simp add: re_search_email_iff)
  from re_search_email_has_at [OF r] f r show "author_email author = Some m"
    by (simp add: author_email_def)
qed

text \<open>The email of a row, from the authors of its record.\<close>

lemma extract_body_email:
  assumes "record_authors records = Inr authors"
    and "extract_body records info = (info', r)"
  shows "Corresponding_Author_Email info' =
           last (Corresponding_Author_Email info #
                 List.map_filter author_email (processed_authors info authors)) \<and>
         (r = None \<longleftrightarrow> processed_authors info authors = authors)"
proof -
  from extract_body_authors [OF assms(1), of info] obtain title year where
    b: "extract_body records info =
          author_loop (info\<lparr>Title := title, Publication_Date := year\<rparr>) authors"
    by blast
  let ?start = "info\<lparr>Title := title, Publication_Date := year\<rparr>"
  from b assms(2) have l: "author_loop ?start authors = (info', r)" by simp
  from author_loop_processed [OF l] obtain mid where
    m: "author_loop ?start (processed_authors ?start authors) = (mid, None)"
    and e: "Corresponding_Author_Email info' = Corresponding_Author_Email mid"
    and c: "r = None \<longleftrightarrow> processed_authors ?start authors = authors"
    by blast
  have p: "processed_authors ?start authors = processed_authors info authors"
    by (rule processed_authors_any_info)
  from author_loop_completed_email [OF m] e p c show ?thesis by simp
qed

text \<open>
  C4, as the claim states it, fails: in the sample paper the first and the third author
  have an email in their affiliation, the second author raises, and the row holds the
  email of the first author, not that of the last author with an email.
\<close>

theorem email_not_of_last_author:
  "record_authors sample_two_emails_cut =
     Inr [sample_author ''Doe'' ''John'' [''XYZ Pharma Inc, contact: a.b@xyz.com''],
          sample_author ''Moe'' ''Max'' [],
          sample_author ''Roe'' ''Ann'' [''Acme Biotech Ltd, c.d@acme.org'']] \<and>
   author_email (sample_author ''Doe'' ''John'' [''XYZ Pharma Inc, contact: a.b@xyz.com'']) =
     Some ''a.b@xyz.com'' \<and>
   author_email (sample_author ''Roe'' ''Ann'' [''Acme Biotech Ltd, c.d@acme.org'']) =
     Some ''c.d@acme.org'' \<and>
   extract_record (Str ''106'') sample_two_emails_cut =
     Some \<lparr>PubmedID = Str ''106'', Title = Str ''Note F'', Publication_Date = Str ''2025'',
           Non_academic_Authors = [Str ''Doe John''],
           Company_Affiliations = [Str ''XYZ Pharma Inc, contact: a.b@xyz.com''],
           Corresponding_Author_Email = ''a.b@xyz.com''\<rparr>"
  by (simp add: run_defs)

text \<open>
  C4, amended. The pattern finds the first email-shaped substring of a string, and a step
  that is completed on an author whose first affiliation holds one writes it to the email
  field, over the value that was there. So the field of a returned row is the email of the
  last author with an email among the authors processed: all authors when nothing was
  raised, the authors before the one that raised otherwise.
\<close>

theorem email_of_last_processed_author:
  "(re_search email_pattern s = Some m \<longleftrightarrow> first_email_shaped s m) \<and>
   (first_email_shaped s m \<longrightarrow>
      py_in ''@'' (Str s) \<and>
      scan_email info (Str s) = (info\<lparr>Corresponding_Author_Email := m\<rparr>, None)) \<and>
   (author_email author = Some m \<longleftrightarrow>
      (\<exists>s. first_affiliation author = Inr (Str s) \<and> first_email_shaped s m)) \<and>
   (author_step info author = (info', None) \<longrightarrow>
      Corresponding_Author_Email info' =
        (case author_email author of None \<Rightarrow> Corresponding_Author_Email info | Some m \<Rightarrow> m)) \<and>
   (extract_record pmid records = Some row \<and> record_authors records = Inr authors \<longrightarrow>
      Corresponding_Author_Email row =
        last ([] # List.map_filter author_email (processed_authors (new_paper_info pmid) authors)) \<and>
      prefix (processed_authors (new_paper_info pmid) authors) authors \<and>
      (snd (extract_body records (new_paper_info pmid)) = None \<longleftrightarrow>
         processed_authors (new_paper_info pmid) authors = authors))"
proof (intro conjI impI)
  show "re_search email_pattern s = Some m \<longleftrightarrow> first_email_shaped s m"
    by (rule re_search_email_iff)
next
  assume "first_email_shaped s m"
  then have r: "re_search email_pattern s = Some m" by (simp add: re_search_email_iff)
  from re_search_email_has_at [OF r] show "py_in ''@'' (Str s)" by simp
  from r show "scan_email info (Str s) = (info\<lparr>Corresponding_Author_Email := m\<rparr>, None)"
    by (simp add: scan_email_Str)
next
  show "author_email author = Some m \<longleftrightarrow>
      (\<exists>s. first_affiliation author = Inr (Str s) \<and> first_email_shaped s m)"
    by (rule author_email_iff)
next
  assume "author_step info author = (info', None)"
  then show "Corresponding_Author_Email info' =
        (case author_email author of None \<Rightarrow> Corresponding_Author_Email info | Some m \<Rightarrow> m)"
    by (rule author_step_email_done)
next
  assume h: "extract_record pmid records = Some row \<and> record_authors records = Inr authors"
  then have row: "row = fst (extract_body records (new_paper_info pmid))"
    using extract_record_Some by blast
  define r where "r = snd (extract_body records (new_paper_info pmid))"
  have b: "extract_body records (new_paper_info pmid) = (row, r)"
    by (simp add: row r_def)
  from h have au: "record_authors records = Inr authors" by simp
  from extract_body_email [OF au b]
  show "Corresponding_Author_Email row =
        last ([] # List.map_filter author_email (processed_authors (new_paper_info pmid) authors))"
    and "snd (extract_body records (new_paper_info pmid)) = None \<longleftrightarrow>
         processed_authors (new_paper_info pmid) authors = authors"
    by (simp_all add: new_paper_info_def r_def)
  show "prefix (processed_authors (new_paper_info pmid) authors) authors"
    by (rule processed_authors_prefix)
qed

theorem email_of_last_processed_author_witness:
  "first_email_shaped ''XYZ Pharma Inc, contact: a.b@xyz.com'' ''a.b@xyz.com'' \<and>
   record_authors sample_two_emails =
     Inr [sample_author ''Doe'' ''John'' [''XYZ Pharma Inc, contact: a.b@xyz.com''],
          sample_author ''Roe'' ''Ann'' [''Acme Biotech Ltd, c.d@acme.org'']] \<and>
   extract_record (Str ''107'') sample_two_emails =
     Some \<lparr>PubmedID = Str ''107'', Title = Str ''Note E'', Publication_Date = Str ''2025'',
           Non_academic_Authors = [Str ''Doe John'', Str ''Roe Ann''],
           Company_Affiliations =
             [Str ''XYZ Pharma Inc, contact: a.b@xyz.com'', Str ''Acme Biotech Ltd, c.d@acme.org''],
           Corresponding_Author_Email = ''c.d@acme.org''\<rparr> \<and>
   last ([] # List.map_filter author_email
      (processed_authors (new_paper_info (Str ''107''))
         [sample_author ''Doe'' ''John'' [''XYZ Pharma Inc, contact: a.b@xyz.com''],
          sample_author ''Roe'' ''Ann'' [''Acme Biotech Ltd, c.d@acme.org'']])) = ''c.d@acme.org''"
proof -
  let ?authors = "[sample_author ''Doe'' ''John'' [''XYZ Pharma Inc, contact: a.b@xyz.com''],
          sample_author ''Roe'' ''Ann'' [''Acme Biotech Ltd, c.d@acme.org'']]"
  let ?row = "\<lparr>PubmedID = Str ''107'', Title = Str ''Note E'', Publication_Date = Str ''2025'',
           Non_academic_Authors = [Str ''Doe John'', Str ''Roe Ann''],
           Company_Affiliations =
             [Str ''XYZ Pharma Inc, contact: a.b@xyz.com'', Str ''Acme Biotech Ltd, c.d@acme.org''],
           Corresponding_Author_Email = ''c.d@acme.org''\<rparr>"
  note inst = email_of_last_processed_author
    [where s = "''XYZ Pharma Inc, contact: a.b@xyz.com''" and m = "''a.b@xyz.com''"
       and pmid = "Str ''107''" and records = sample_two_emails and row = ?row
       and authors = ?authors]
  have search: "re_search email_pattern ''XYZ Pharma Inc, contact: a.b@xyz.com'' = Some ''a.b@xyz.com''"
    by (simp add: run_defs)
  have authors: "record_authors sample_two_emails = Inr ?authors"
    by (simp add: run_defs)
  have run: "extract_record (Str ''107'') sample_two_emails = Some ?row"
    by (simp add: run_defs)
  from inst search have shaped: "first_email_shaped ''XYZ Pharma Inc, contact: a.b@xyz.com'' ''a.b@xyz.com''"
    by blast
  from inst run authors have "Corresponding_Author_Email ?row =
     last ([] # List.map_filter author_email (processed_authors (new_paper_info (Str ''107'')) ?authors))"
    by blast
  then have "last ([] # List.map_filter author_email
      (processed_authors (new_paper_info (Str ''107'')) ?authors)) = ''c.d@acme.org''"
    by simp
  with shaped authors run show ?thesis by blast
qed

section \<open>A flagged author in a completed step\<close>

lemma author_loop_append_done:
  assumes "author_loop info (xs @ ys) = (info', None)"
  shows "\<exists>mid. author_loop info xs = (mid, None) \<and> author_loop mid ys = (info', None)"
proof -
  obtain mid r where l: "author_loop info xs = (mid, r)" by (cases "author_loop info xs")
  with assms show ?thesis by (cases r) (simp_all add: author_loop_append)
qed

lemma author_loop_Cons_done:
  assumes "author_loop info (a # ys) = (info', None)"
  shows "\<exists>mid. author_step info a = (mid, None) \<and> author_loop mid ys = (info', None)"
proof -
  obtain mid r where l: "author_step info a = (mid, r)" by (cases "author_step info a")
  with assms show ?thesis by (cases r) simp_all
qed

lemma author_step_flagged_done:
  assumes "first_affiliation author = Inr affiliation"
    and "is_non_academic affiliation"
    and "author_step info author = (info', None)"
  shows "\<exists>name. author_name author = Inr name \<and>
           Non_academic_Authors info' = Non_academic_Authors info @ [name] \<and>
           Company_Affiliations info' = Company_Affiliations info @ [affiliation] \<and>
           scan_email
             (info\<lparr>Non_academic_Authors := Non_academic_Authors info @ [name],
                   Company_Affiliations := Company_Affiliations info @ [affiliation]\<rparr>)
             affiliation = (info', None)"
proof (cases "author_name author")
  case (Inl e)
  with assms first_affiliation_in [OF assms(1)] show ?thesis by (simp add: author_step_def)
next
  case (Inr name)
  with assms first_affiliation_in [OF assms(1)] have sc: "scan_email
             (info\<lparr>Non_academic_Authors := Non_academic_Authors info @ [name],
                   Company_Affiliations := Company_Affiliations info @ [affiliation]\<rparr>)
             affiliation = (info', None)"
    by (simp add: author_step_def)
  then have "info' = fst (scan_email
             (info\<lparr>Non_academic_Authors := Non_academic_Authors info @ [name],
                   Company_Affiliations := Company_Affiliations info @ [affiliation]\<rparr>)
             affiliation)" by simp
  then have "Non_academic_Authors info' = Non_academic_Authors info @ [name] \<and>
           Company_Affiliations info' = Company_Affiliations info @ [affiliation]"
    by (simp add: scan_email_lists)
  with Inr sc show ?thesis by blast
qed

lemma author_loop_lists_grow:
  assumes "author_loop info authors = (info', r)"
  shows "\<exists>names affiliations.
           Non_academic_Authors info' = Non_academic_Authors info @ names \<and>
           Company_Affiliations info' = Company_Affiliations info @ affiliations \<and>
           length names = length affiliations"
proof -
  from author_loop_lockstep [OF assms] obtain flagged names affiliations where
    n: "Non_academic_Authors info' = Non_academic_Authors info @ names" and
    c: "Company_Affiliations info' = Company_Affiliations info @ affiliations" and
    ln: "list_all2 (\<lambda>author name. author_name author = Inr name) flagged names" and
    lc: "list_all2 (\<lambda>author affiliation. first_affiliation author = Inr affiliation \<and>
                                       is_non_academic affiliation) flagged affiliations"
    by blast
  from ln lc have "length names = length affiliations"
    by (simp add: list_all2_lengthD [symmetric])
  with n c show ?thesis by blast
qed

text \<open>
  A processed author with a flagged first affiliation: the record is not dropped, and the
  name and the affiliation of the author stand at the same index of the two lists. The
  email field is the one found at the end of the processed authors.
\<close>

lemma processed_flagged_author:
  assumes au: "record_authors records = Inr authors"
    and pr: "processed_authors (new_paper_info pmid) authors = before @ author # after"
    and fa: "first_affiliation author = Inr affiliation"
    and na: "is_non_academic affiliation"
  shows "\<exists>row name i mid scanned.
           extract_record pmid records = Some row \<and> author_name author = Inr name \<and>
           i < length (Non_academic_Authors row) \<and> i < length (Company_Affiliations row) \<and>
           Non_academic_Authors row ! i = name \<and> Company_Affiliations row ! i = affiliation \<and>
           scan_email mid affiliation = (scanned, None) \<and>
           Corresponding_Author_Email row =
             last (Corresponding_Author_Email scanned # List.map_filter author_email after)"
proof -
  from extract_body_authors [OF au, of "new_paper_info pmid"] obtain title year where
    b: "extract_body records (new_paper_info pmid) =
          author_loop ((new_paper_info pmid)\<lparr>Title := title, Publication_Date := year\<rparr>) authors"
    by blast
  let ?start = "(new_paper_info pmid)\<lparr>Title := title, Publication_Date := year\<rparr>"
  obtain row r where l: "author_loop ?start authors = (row, r)"
    by (cases "author_loop ?start authors")
  from author_loop_processed [OF l] obtain fin names4 affs4 where
    d: "author_loop ?start (processed_authors ?start authors) = (fin, None)"
    and n4: "Non_academic_Authors row = Non_academic_Authors fin @ names4"
    and c4: "Company_Affiliations row = Company_Affiliations fin @ affs4"
    and e4: "Corresponding_Author_Email row = Corresponding_Author_Email fin"
    by blast
  have "processed_authors ?start authors = before @ author # after"
    using pr processed_authors_any_info [of ?start authors "new_paper_info pmid"] by simp
  with d have d': "author_loop ?start (before @ author # after) = (fin, None)" by simp
  from author_loop_append_done [OF d'] obtain i1 where
    l1: "author_loop ?start before = (i1, None)" and l2: "author_loop i1 (author # after) = (fin, None)"
    by blast
  from author_loop_Cons_done [OF l2] obtain i2 where
    st: "author_step i1 author = (i2, None)" and l3: "author_loop i2 after = (fin, None)"
    by blast
  from author_loop_lists_grow [OF l1] obtain names1 affs1 where
    n1: "Non_academic_Authors i1 = names1" and c1: "Company_Affiliations i1 = affs1"
    and len1: "length names1 = length affs1"
    by (auto simp: new_paper_info_def)
  from author_step_flagged_done [OF fa na st] obtain name where
    an: "author_name author = Inr name"
    and n2: "Non_academic_Authors i2 = Non_academic_Authors i1 @ [name]"
    and c2: "Company_Affiliations i2 = Company_Affiliations i1 @ [affiliation]"
    and sc: "scan_email
             (i1\<lparr>Non_academic_Authors := Non_academic_Authors i1 @ [name],
                 Company_Affiliations := Company_Affiliations i1 @ [affiliation]\<rparr>)
             affiliation = (i2, None)"
    by blast
  let ?mid = "i1\<lparr>Non_academic_Authors := Non_academic_Authors i1 @ [name],
                 Company_Affiliations := Company_Affiliations i1 @ [affiliation]\<rparr>"
  from author_loop_lists_grow [OF l3] obtain names3 affs3 where
    n3: "Non_academic_Authors fin = Non_academic_Authors i2 @ names3"
    and c3: "Company_Affiliations fin = Company_Affiliations i2 @ affs3"
    by blast
  have names: "Non_academic_Authors row = names1 @ name # names3 @ names4"
    using n1 n2 n3 n4 by simp
  have affs: "Company_Affiliations row = affs1 @ affiliation # affs3 @ affs4"
    using c1 c2 c3 c4 by simp
  have row: "extract_record pmid records = Some row"
    using b l names by (simp add: extract_record_def Let_def)
  have i: "length names1 < length (Non_academic_Authors row)"
    "length names1 < length (Company_Affiliations row)"
    "Non_academic_Authors row ! length names1 = name"
    "Company_Affiliations row ! length names1 = affiliation"
    using names affs len1 by (simp_all add: nth_append)
  have "Corresponding_Author_Email fin =
          last (Corresponding_Author_Email i2 # List.map_filter author_email after)"
    using l3 by (rule author_loop_completed_email)
  with e4 have em: "Corresponding_Author_Email row =
             last (Corresponding_Author_Email i2 # List.map_filter author_email after)"
    by simp
  from row an i sc em show ?thesis by blast
qed

text \<open>
  C6, as the claim states it, fails: the sample paper contains an author with exactly that
  affiliation, and a later author whose affiliation holds another email, which the row
  ends up with.
\<close>

theorem later_author_overwrites_email:
  "record_authors sample_two_emails =
     Inr [sample_author ''Doe'' ''John'' [''XYZ Pharma Inc, contact: a.b@xyz.com''],
          sample_author ''Roe'' ''Ann'' [''Acme Biotech Ltd, c.d@acme.org'']] \<and>
   first_affiliation (sample_author ''Doe'' ''John'' [''XYZ Pharma Inc, contact: a.b@xyz.com'']) =
     Inr (Str ''XYZ Pharma Inc, contact: a.b@xyz.com'') \<and>
   snd (extract_body sample_two_emails (new_paper_info (Str ''108''))) = None \<and>
   extract_record (Str ''108'') sample_two_emails =
     Some \<lparr>PubmedID = Str ''108'', Title = Str ''Note E'', Publication_Date = Str ''2025'',
           Non_academic_Authors = [Str ''Doe John'', Str ''Roe Ann''],
           Company_Affiliations =
             [Str ''XYZ Pharma Inc, contact: a.b@xyz.com'', Str ''Acme Biotech Ltd, c.d@acme.org''],
           Corresponding_Author_Email = ''c.d@acme.org''\<rparr>"
  by (simp add: run_defs)

text \<open>
  C6, amended. The affiliation \<open>XYZ Pharma Inc, contact: a.b@xyz.com\<close> is classified as
  non-academic. When an author with that first affiliation is among the processed authors
  of a record, the record gives a row, the name of the author and the affiliation stand
  at the same index of its two lists, and its email field is \<open>a.b@xyz.com\<close> unless an
  author processed later has an email too, the last of which it then is.
\<close>

theorem xyz_pharma_author_flagged:
  assumes "record_authors records = Inr authors"
    and "processed_authors (new_paper_info pmid) authors = before @ author # after"
    and "first_affiliation author = Inr (Str ''XYZ Pharma Inc, contact: a.b@xyz.com'')"
  shows "is_non_academic (Str ''XYZ Pharma Inc, contact: a.b@xyz.com'') \<and>
         (\<exists>row name i.
            extract_record pmid records = Some row \<and> author_name author = Inr name \<and>
            i < length (Non_academic_Authors row) \<and> i < length (Company_Affiliations row) \<and>
            Non_academic_Authors row ! i = name \<and>
            Company_Affiliations row ! i = Str ''XYZ Pharma Inc, contact: a.b@xyz.com'' \<and>
            Corresponding_Author_Email row =
              last (''a.b@xyz.com'' # List.map_filter author_email after))"
proof -
  have na: "is_non_academic (Str ''XYZ Pharma Inc, contact: a.b@xyz.com'')"
    by (simp add: is_non_academic_def NON_ACADEMIC_KEYWORDS_def ACADEMIC_KEYWORDS_def)
  have search: "re_search email_pattern ''XYZ Pharma Inc, contact: a.b@xyz.com'' = Some ''a.b@xyz.com''"
    by (simp add: email_pattern_def email_char_def word_char_def at_sign_def)
  from processed_flagged_author [OF assms na] obtain row name i mid scanned where
    row: "extract_record pmid records = Some row" and an: "author_name author = Inr name"
    and i: "i < length (Non_academic_Authors row)" "i < length (Company_Affiliations row)"
      "Non_academic_Authors row ! i = name"
      "Company_Affiliations row ! i = Str ''XYZ Pharma Inc, contact: a.b@xyz.com''"
    and sc: "scan_email mid (Str ''XYZ Pharma Inc, contact: a.b@xyz.com'') = (scanned, None)"
    and em: "Corresponding_Author_Email row =
             last (Corresponding_Author_Email scanned # List.map_filter author_email after)"
    by blast
  from sc search have "Corresponding_Author_Email scanned = ''a.b@xyz.com''"
    by (auto simp: scan_email_Str)
  with em have "Corresponding_Author_Email row =
              last (''a.b@xyz.com'' # List.map_filter author_email after)" by simp
  with na row an i show ?thesis by blast
qed

theorem xyz_pharma_author_flagged_witness:
  "record_authors (sample_record ''Trial A'' ''2021''
       [sample_author ''Doe'' ''John'' [''XYZ Pharma Inc, contact: a.b@xyz.com'']]) =
     Inr [sample_author ''Doe'' ''John'' [''XYZ Pharma Inc, contact: a.b@xyz.com'']] \<and>
   processed_authors (new_paper_info (Str ''101''))
       [sample_author ''Doe'' ''John'' [''XYZ Pharma Inc, contact: a.b@xyz.com'']] =
     [sample_author ''Doe'' ''John'' [''XYZ Pharma Inc, contact: a.b@xyz.com'']] \<and>
   extract_record (Str ''101'') (sample_record ''Trial A'' ''2021''
       [sample_author ''Doe'' ''John'' [''XYZ Pharma Inc, contact: a.b@xyz.com'']]) =
     Some sample_row_101 \<and>
   Corresponding_Author_Email sample_row_101 = ''a.b@xyz.com''"
proof -
  let ?author = "sample_author ''Doe'' ''John'' [''XYZ Pharma Inc, contact: a.b@xyz.com'']"
  let ?paper = "sample_record ''Trial A'' ''2021'' [?author]"
  have au: "record_authors ?paper = Inr [?author]"
    by (simp add: run_defs)
  have pr: "processed_authors (new_paper_info (Str ''101'')) [?author] = [] @ ?author # []"
    by (simp add: run_defs)
  have fa: "first_affiliation ?author = Inr (Str ''XYZ Pharma Inc, contact: a.b@xyz.com'')"
    by (simp add: run_defs)
  have run: "extract_record (Str ''101'') ?paper = Some sample_row_101"
    by (simp add: run_defs)
  from xyz_pharma_author_flagged [OF au pr fa] run
  have "Corresponding_Author_Email sample_row_101 = last (''a.b@xyz.com'' # List.map_filter author_email [])"
    by auto
  then have "Corresponding_Author_Email sample_row_101 = ''a.b@xyz.com''" by simp
  with au pr run show ?thesis by simp
qed

section \<open>The point of failure\<close>

text \<open>
  A loop that raises has completed the processed authors, raised in the step of the author
  that follows them, and looked at no author after that one.
\<close>

lemma author_loop_failure_point:
  "author_loop info authors = (info', Some e) \<Longrightarrow>
   \<exists>mid failing rest.
     authors = processed_authors info authors @ failing # rest \<and>
     author_loop info (processed_authors info authors) = (mid, None) \<and>
     author_step mid failing = (info', Some e)"
proof (induction authors arbitrary: info)
  case Nil
  then show ?case by simp
next
  case (Cons a authors)
  obtain info1 r1 where st: "author_step info a = (info1, r1)" by (cases "author_step info a")
  show ?case
  proof (cases r1)
    case (Some e1)
    with Cons.prems st have "info' = info1" and "e1 = e" by simp_all
    with st Some have "a # authors = processed_authors info (a # authors) @ a # authors \<and>
      author_loop info (processed_authors info (a # authors)) = (info, None) \<and>
      author_step info a = (info', Some e)"
      by simp
    then show ?thesis by blast
  next
    case None
    with Cons.prems st have "author_loop info1 authors = (info', Some e)" by simp
    from Cons.IH [OF this] obtain mid failing rest where
      "authors = processed_authors info1 authors @ failing # rest"
      "author_loop info1 (processed_authors info1 authors) = (mid, None)"
      "author_step mid failing = (info', Some e)"
      by blast
    with st None have "a # authors = processed_authors info (a # authors) @ failing # rest \<and>
      author_loop info (processed_authors info (a # authors)) = (mid, None) \<and>
      author_step mid failing = (info', Some e)"
      by simp
    then show ?thesis by blast
  qed
qed

text \<open>
  C1, amended. When an access fails, the exception is swallowed and extraction stops
  there. A failure before the loop over the authors (article, title, year, author list)
  leaves the lists and the email empty, and the record is dropped. A failure in the loop
  comes in the step of one author: the dictionary is then what the loop over the authors
  before that one has built, with what the failing step still wrote, and no later author
  is looked at. The record is dropped exactly when that dictionary has no flagged author;
  otherwise the extractor returns it.
\<close>

theorem failure_keeps_what_was_written:
  assumes "extract_body records (new_paper_info pmid) = (info, Some e)"
  shows "(extract_record pmid records = None \<longleftrightarrow> Non_academic_Authors info = []) \<and>
         (Non_academic_Authors info \<noteq> [] \<longrightarrow> extract_record pmid records = Some info) \<and>
         (isl (record_authors records) \<longrightarrow>
            record_authors records = Inl e \<and> Non_academic_Authors info = [] \<and>
            Company_Affiliations info = [] \<and> Corresponding_Author_Email info = [] \<and>
            extract_record pmid records = None) \<and>
         (\<forall>authors. record_authors records = Inr authors \<longrightarrow>
            (\<exists>mid failing rest.
               authors = processed_authors (new_paper_info pmid) authors @ failing # rest \<and>
               author_loop ((new_paper_info pmid)\<lparr>Title := Title info,
                                                 Publication_Date := Publication_Date info\<rparr>)
                 (processed_authors (new_paper_info pmid) authors) = (mid, None) \<and>
               author_step mid failing = (info, Some e) \<and>
               Corresponding_Author_Email info = Corresponding_Author_Email mid \<and>
               Corresponding_Author_Email info =
                 last ([] # List.map_filter author_email
                             (processed_authors (new_paper_info pmid) authors))))"
proof (intro conjI impI allI)
  show "extract_record pmid records = None \<longleftrightarrow> Non_academic_Authors info = []"
    using assms by (simp add: extract_record_def Let_def)
next
  assume "Non_academic_Authors info \<noteq> []"
  then show "extract_record pmid records = Some info"
    using assms by (simp add: extract_record_def Let_def)
next
  assume "isl (record_authors records)"
  then obtain e' where a: "record_authors records = Inl e'"
    by (cases "record_authors records") simp_all
  from extract_body_no_authors [OF a, of "new_paper_info pmid"] assms
  have e: "e' = e" and l: "Non_academic_Authors info = []" "Company_Affiliations info = []"
    "Corresponding_Author_Email info = []"
    by (simp_all add: new_paper_info_def)
  from a e show "record_authors records = Inl e" by simp
  from l show "Non_academic_Authors info = []" "Company_Affiliations info = []"
    "Corresponding_Author_Email info = []" by simp_all
  from l assms show "extract_record pmid records = None"
    by (simp add: extract_record_def Let_def)
next
  fix authors
  assume au: "record_authors records = Inr authors"
  from extract_body_authors [OF au, of "new_paper_info pmid"] obtain title year where
    b: "extract_body records (new_paper_info pmid) =
          author_loop ((new_paper_info pmid)\<lparr>Title := title, Publication_Date := year\<rparr>) authors"
    by blast
  let ?start = "(new_paper_info pmid)\<lparr>Title := title, Publication_Date := year\<rparr>"
  from b assms have l: "author_loop ?start authors = (info, Some e)" by simp
  from author_loop_kept [OF l] have ty: "Title info = title" "Publication_Date info = year"
    by simp_all
  have p: "processed_authors ?start authors = processed_authors (new_paper_info pmid) authors"
    by (rule processed_authors_any_info)
  from author_loop_failure_point [OF l] p obtain mid failing rest where
    f: "authors = processed_authors (new_paper_info pmid) authors @ failing # rest"
      "author_loop ?start (processed_authors (new_paper_info pmid) authors) = (mid, None)"
      "author_step mid failing = (info, Some e)"
    by auto
  from author_step_email_raised [OF f(3)]
  have em: "Corresponding_Author_Email info = Corresponding_Author_Email mid" .
  from extract_body_email [OF au assms]
  have el: "Corresponding_Author_Email info =
                 last ([] # List.map_filter author_email
                             (processed_authors (new_paper_info pmid) authors))"
    by (simp add: new_paper_info_def)
  from f em el ty show "\<exists>mid failing rest.
               authors = processed_authors (new_paper_info pmid) authors @ failing # rest \<and>
               author_loop ((new_paper_info pmid)\<lparr>Title := Title info,
                                                 Publication_Date := Publication_Date info\<rparr>)
                 (processed_authors (new_paper_info pmid) authors) = (mid, None) \<and>
               author_step mid failing = (info, Some e) \<and>
               Corresponding_Author_Email info = Corresponding_Author_Email mid \<and>
               Corresponding_Author_Email info =
                 last ([] # List.map_filter author_email
                             (processed_authors (new_paper_info pmid) authors))"
    by blast
qed

theorem failure_keeps_what_was_written_witness:
  "extract_body sample_cut_short (new_paper_info (Str ''104'')) =
     (sample_row_cut_short, Some IndexError) \<and>
   Non_academic_Authors sample_row_cut_short \<noteq> [] \<and>
   extract_record (Str ''104'') sample_cut_short = Some sample_row_cut_short \<and>
   processed_authors (new_paper_info (Str ''104''))
     [sample_author ''Doe'' ''John'' [''XYZ Pharma Inc, contact: a.b@xyz.com''],
      sample_author ''Moe'' ''Max'' []] =
     [sample_author ''Doe'' ''John'' [''XYZ Pharma Inc, contact: a.b@xyz.com'']] \<and>
   extract_body (Dct []) (new_paper_info (Str ''105'')) =
     (new_paper_info (Str ''105''), Some KeyError) \<and>
   record_authors (Dct []) = Inl KeyError \<and>
   extract_record (Str ''105'') (Dct []) = None"
proof -
  have b1: "extract_body sample_cut_short (new_paper_info (Str ''104'')) =
     (sample_row_cut_short, Some IndexError)"
    by (simp add: run_defs)
  have n1: "Non_academic_Authors sample_row_cut_short \<noteq> []"
    by (simp add: sample_row_cut_short_def)
  have p1: "processed_authors (new_paper_info (Str ''104''))
     [sample_author ''Doe'' ''John'' [''XYZ Pharma Inc, contact: a.b@xyz.com''],
      sample_author ''Moe'' ''Max'' []] =
     [sample_author ''Doe'' ''John'' [''XYZ Pharma Inc, contact: a.b@xyz.com'']]"
    by (simp add: run_defs)
  have b2: "extract_body (Dct []) (new_paper_info (Str ''105'')) =
     (new_paper_info (Str ''105''), Some KeyError)"
    by (simp add: run_defs)
  have a2: "record_authors (Dct []) = Inl KeyError"
    by (simp add: run_defs)
  from failure_keeps_what_was_written [OF b1] n1
  have r1: "extract_record (Str ''104'') sample_cut_short = Some sample_row_cut_short" by blast
  from failure_keeps_what_was_written [OF b2] a2
  have r2: "extract_record (Str ''105'') (Dct []) = None" by simp
  from b1 n1 r1 p1 b2 a2 r2 show ?thesis by blast
qed

text \<open>
  C2, as the claim states it, fails: the affiliation of the sample author holds a
  commercial keyword and no academic one, and the author is not flagged, since the name
  cannot be built without a first name; the step raises and the record gives no row.
\<close>

theorem company_author_without_forename_not_flagged:
  "first_affiliation sample_author_no_forename = Inr (Str ''Acme Pharma Inc'') \<and>
   is_non_academic (Str ''Acme Pharma Inc'') \<and>
   author_step (new_paper_info (Str ''110'')) sample_author_no_forename =
     (new_paper_info (Str ''110''), Some KeyError) \<and>
   extract_record (Str ''110'') (sample_record ''Letter I'' ''2019'' [sample_author_no_forename]) =
     None"
  by (simp add: run_defs)

text \<open>
  C2, amended. An affiliation string is classified as non-academic if and only if one of
  the commercial keywords is a substring of it and none of the academic keywords is,
  letter case included; so a string with a keyword of either kind is not. A step that
  reads such a string as the first affiliation of an author flags the author, appending
  name and affiliation to the two lists, if and only if the string is so classified and
  the name can be built from the last and the first name; when it is so classified and
  the name cannot be built, the step raises and appends nothing. A step on a string that
  is not so classified appends nothing and raises nothing.
\<close>

theorem flagged_iff_keywords_and_name:
  "(is_non_academic (Str affiliation) \<longleftrightarrow>
      (\<exists>keyword \<in> {''Pharma'', ''Biotech'', ''Inc'', ''Ltd'', ''Corporation'', ''Company'',
                    ''Laboratories''}. sublist keyword affiliation) \<and>
      \<not> (\<exists>keyword \<in> {''University'', ''Institute'', ''Academy'', ''Hospital'',
                       ''Research Center''}. sublist keyword affiliation)) \<and>
   (first_affiliation author = Inr (Str affiliation) \<longrightarrow>
      (\<not> is_non_academic (Str affiliation) \<longrightarrow>
         Non_academic_Authors (fst (author_step info author)) = Non_academic_Authors info \<and>
         Company_Affiliations (fst (author_step info author)) = Company_Affiliations info \<and>
         snd (author_step info author) = None) \<and>
      (is_non_academic (Str affiliation) \<longrightarrow>
         (\<forall>name. author_name author = Inr name \<longrightarrow>
            Non_academic_Authors (fst (author_step info author)) =
              Non_academic_Authors info @ [name] \<and>
            Company_Affiliations (fst (author_step info author)) =
              Company_Affiliations info @ [Str affiliation] \<and>
            snd (author_step info author) = None) \<and>
         (\<forall>e. author_name author = Inl e \<longrightarrow> author_step info author = (info, Some e))))"
proof (intro conjI impI allI)
  show "is_non_academic (Str affiliation) \<longleftrightarrow>
      (\<exists>keyword \<in> {''Pharma'', ''Biotech'', ''Inc'', ''Ltd'', ''Corporation'', ''Company'',
                    ''Laboratories''}. sublist keyword affiliation) \<and>
      \<not> (\<exists>keyword \<in> {''University'', ''Institute'', ''Academy'', ''Hospital'',
                       ''Research Center''}. sublist keyword affiliation)"
    by (simp add: is_non_academic_def NON_ACADEMIC_KEYWORDS_def ACADEMIC_KEYWORDS_def
          str_contains_sublist)
next
  assume fa: "first_affiliation author = Inr (Str affiliation)"
    and na: "\<not> is_non_academic (Str affiliation)"
  from first_affiliation_in [OF fa] fa na
  show "Non_academic_Authors (fst (author_step info author)) = Non_academic_Authors info"
    and "Company_Affiliations (fst (author_step info author)) = Company_Affiliations info"
    and "snd (author_step info author) = None"
    by (simp_all add: author_step_def scan_email_lists scan_email_outcome)
next
  fix name
  assume fa: "first_affiliation author = Inr (Str affiliation)"
    and na: "is_non_academic (Str affiliation)" and an: "author_name author = Inr name"
  from first_affiliation_in [OF fa] fa na an
  show "Non_academic_Authors (fst (author_step info author)) = Non_academic_Authors info @ [name]"
    and "Company_Affiliations (fst (author_step info author)) =
           Company_Affiliations info @ [Str affiliation]"
    and "snd (author_step info author) = None"
    by (simp_all add: author_step_def scan_email_lists scan_email_outcome)
next
  fix e
  assume fa: "first_affiliation author = Inr (Str affiliation)"
    and na: "is_non_academic (Str affiliation)" and an: "author_name author = Inl e"
  from first_affiliation_in [OF fa] fa na an
  show "author_step info author = (info, Some e)"
    by (simp add: author_step_def)
qed

theorem flagged_iff_keywords_and_name_witness:
  "is_non_academic (Str ''Acme Biotech Ltd'') \<and>
   \<not> is_non_academic (Str ''Acme Pharma, University Hospital'') \<and>
   \<not> is_non_academic (Str ''acme pharma ltd'') \<and>
   first_affiliation (sample_author ''Roe'' ''Ann'' [''Acme Biotech Ltd'']) =
     Inr (Str ''Acme Biotech Ltd'') \<and>
   author_name (sample_author ''Roe'' ''Ann'' [''Acme Biotech Ltd'']) = Inr (Str ''Roe Ann'') \<and>
   Non_academic_Authors (fst (author_step (new_paper_info (Str ''103''))
     (sample_author ''Roe'' ''Ann'' [''Acme Biotech Ltd'']))) = [Str ''Roe Ann''] \<and>
   Company_Affiliations (fst (author_step (new_paper_info (Str ''103''))
     (sample_author ''Roe'' ''Ann'' [''Acme Biotech Ltd'']))) = [Str ''Acme Biotech Ltd''] \<and>
   first_affiliation sample_author_no_forename = Inr (Str ''Acme Pharma Inc'') \<and>
   is_non_academic (Str ''Acme Pharma Inc'') \<and>
   author_name sample_author_no_forename = Inl KeyError \<and>
   author_step sample_row_101 sample_author_no_forename = (sample_row_101, Some KeyError)"
proof -
  let ?author = "sample_author ''Roe'' ''Ann'' [''Acme Biotech Ltd'']"
  have a: "is_non_academic (Str ''Acme Biotech Ltd'')"
    using flagged_iff_keywords_and_name [where affiliation = "''Acme Biotech Ltd''"]
    by (simp add: str_contains_sublist [symmetric])
  have b: "\<not> is_non_academic (Str ''Acme Pharma, University Hospital'')"
    using flagged_iff_keywords_and_name [where affiliation = "''Acme Pharma, University Hospital''"]
    by (simp add: str_contains_sublist [symmetric])
  have c: "\<not> is_non_academic (Str ''acme pharma ltd'')"
    using flagged_iff_keywords_and_name [where affiliation = "''acme pharma ltd''"]
    by (simp add: str_contains_sublist [symmetric])
  have d: "is_non_academic (Str ''Acme Pharma Inc'')"
    using flagged_iff_keywords_and_name [where affiliation = "''Acme Pharma Inc''"]
    by (simp add: str_contains_sublist [symmetric])
  have fa: "first_affiliation ?author = Inr (Str ''Acme Biotech Ltd'')"
    by (simp add: run_defs)
  have an: "author_name ?author = Inr (Str ''Roe Ann'')"
    by (simp add: run_defs)
  have fa2: "first_affiliation sample_author_no_forename = Inr (Str ''Acme Pharma Inc'')"
    by (simp add: run_defs)
  have an2: "author_name sample_author_no_forename = Inl KeyError"
    by (simp add: run_defs)
  from flagged_iff_keywords_and_name
         [where affiliation = "''Acme Biotech Ltd''" and author = ?author
            and info = "new_paper_info (Str ''103'')"] fa a an
  have "Non_academic_Authors (fst (author_step (new_paper_info (Str ''103'')) ?author)) =
          Non_academic_Authors (new_paper_info (Str ''103'')) @ [Str ''Roe Ann''] \<and>
        Company_Affiliations (fst (author_step (new_paper_info (Str ''103'')) ?author)) =
          Company_Affiliations (new_paper_info (Str ''103'')) @ [Str ''Acme Biotech Ltd'']"
    by blast
  then have l: "Non_academic_Authors (fst (author_step (new_paper_info (Str ''103'')) ?author)) =
          [Str ''Roe Ann''] \<and>
        Company_Affiliations (fst (author_step (new_paper_info (Str ''103'')) ?author)) =
          [Str ''Acme Biotech Ltd'']"
    by (simp add: new_paper_info_def)
  from flagged_iff_keywords_and_name
         [where affiliation = "''Acme Pharma Inc''" and author = sample_author_no_forename
            and info = sample_row_101] fa2 d an2
  have r: "author_step sample_row_101 sample_author_no_forename = (sample_row_101, Some KeyError)"
    by blast
  from a b c fa an l fa2 d an2 r show ?thesis by blast
qed

text \<open>
  C9, as the claim states it, fails: the third author of the sample paper is a university
  author whose first affiliation holds an email, the second author raises, and the row
  returned for the first author has no email.
\<close>

theorem academic_email_after_failure_not_stored:
  "record_authors sample_academic_unreached =
     Inr [sample_author ''Roe'' ''Ann'' [''Acme Biotech Ltd''],
          sample_author ''Moe'' ''Max'' [],
          sample_author ''Poe'' ''Eve'' [''Department of Biology, University of X, eve@uni.edu'']] \<and>
   first_affiliation (sample_author ''Poe'' ''Eve''
      [''Department of Biology, University of X, eve@uni.edu'']) =
     Inr (Str ''Department of Biology, University of X, eve@uni.edu'') \<and>
   re_search email_pattern ''Department of Biology, University of X, eve@uni.edu'' =
     Some ''eve@uni.edu'' \<and>
   extract_record (Str ''111'') sample_academic_unreached =
     Some \<lparr>PubmedID = Str ''111'', Title = Str ''Review H'', Publication_Date = Str ''2018'',
           Non_academic_Authors = [Str ''Roe Ann''],
           Company_Affiliations = [Str ''Acme Biotech Ltd''],
           Corresponding_Author_Email = []\<rparr>"
  by (simp add: run_defs)

text \<open>
  C9, amended. The email field is set whether or not the author is flagged. A step on an
  author whose first affiliation is a string that is not classified as non-academic (an
  academic keyword, or no commercial one) and holds an email-shaped substring writes the
  first such substring to the field and raises nothing; any step that is completed on an
  author with such a substring leaves it in the field. So for an author among the
  processed authors of a record the email of the row is that substring, or the email of a
  later processed author, and a returned row can carry the email of a university author:
  in the sample paper the row returned for the company author does.
\<close>

theorem email_from_unflagged_author:
  "(first_affiliation author = Inr (Str affiliation) \<and> first_email_shaped affiliation m \<longrightarrow>
      (\<not> is_non_academic (Str affiliation) \<longrightarrow>
         author_step info author = (info\<lparr>Corresponding_Author_Email := m\<rparr>, None)) \<and>
      (\<forall>info'. author_step info author = (info', None) \<longrightarrow>
         Corresponding_Author_Email info' = m)) \<and>
   (record_authors records = Inr authors \<and> extract_record pmid records = Some row \<and>
    processed_authors (new_paper_info pmid) authors = before @ author # after \<and>
    first_affiliation author = Inr (Str affiliation) \<and> first_email_shaped affiliation m \<longrightarrow>
      Corresponding_Author_Email row = last (m # List.map_filter author_email after)) \<and>
   \<not> is_non_academic (Str ''Department of Biology, University of X, eve@uni.edu'') \<and>
   author_email (sample_author ''Roe'' ''Ann'' [''Acme Biotech Ltd'']) = None \<and>
   author_email (sample_author ''Poe'' ''Eve''
      [''Department of Biology, University of X, eve@uni.edu'']) = Some ''eve@uni.edu'' \<and>
   extract_record (Str ''109'') sample_academic_email =
     Some \<lparr>PubmedID = Str ''109'', Title = Str ''Review G'', Publication_Date = Str ''2020'',
           Non_academic_Authors = [Str ''Roe Ann''],
           Company_Affiliations = [Str ''Acme Biotech Ltd''],
           Corresponding_Author_Email = ''eve@uni.edu''\<rparr>"
proof (intro conjI impI allI)
  assume h: "first_affiliation author = Inr (Str affiliation) \<and> first_email_shaped affiliation m"
    and na: "\<not> is_non_academic (Str affiliation)"
  from h have fa: "first_affiliation author = Inr (Str affiliation)"
    and r: "re_search email_pattern affiliation = Some m"
    by (simp_all add: re_search_email_iff)
  from first_affiliation_in [OF fa] fa na r
  show "author_step info author = (info\<lparr>Corresponding_Author_Email := m\<rparr>, None)"
    by (simp add: author_step_def scan_email_Str)
next
  fix info'
  assume h: "first_affiliation author = Inr (Str affiliation) \<and> first_email_shaped affiliation m"
    and st: "author_step info author = (info', None)"
  from h have "author_email author = Some m" by (auto simp: author_email_iff)
  with author_step_email_done [OF st] show "Corresponding_Author_Email info' = m" by simp
next
  assume h: "record_authors records = Inr authors \<and> extract_record pmid records = Some row \<and>
    processed_authors (new_paper_info pmid) authors = before @ author # after \<and>
    first_affiliation author = Inr (Str affiliation) \<and> first_email_shaped affiliation m"
  then have au: "record_authors records = Inr authors"
    and pr: "processed_authors (new_paper_info pmid) authors = before @ author # after"
    and em: "author_email author = Some m"
    by (auto simp: author_email_iff)
  from h have row: "row = fst (extract_body records (new_paper_info pmid))"
    using extract_record_Some by blast
  define r where "r = snd (extract_body records (new_paper_info pmid))"
  have b: "extract_body records (new_paper_info pmid) = (row, r)"
    by (simp add: row r_def)
  from extract_body_email [OF au b] pr
  have "Corresponding_Author_Email row =
          last ([] # List.map_filter author_email (before @ author # after))"
    by (simp add: new_paper_info_def)
  with em show "Corresponding_Author_Email row = last (m # List.map_filter author_email after)"
    by (simp add: List.map_filter_def)
qed (simp_all add: run_defs)

theorem email_from_unflagged_author_witness:
  "first_affiliation (sample_author ''Poe'' ''Eve''
      [''Department of Biology, University of X, eve@uni.edu'']) =
     Inr (Str ''Department of Biology, University of X, eve@uni.edu'') \<and>
   \<not> is_non_academic (Str ''Department of Biology, University of X, eve@uni.edu'') \<and>
   first_email_shaped ''Department of Biology, University of X, eve@uni.edu'' ''eve@uni.edu'' \<and>
   author_step sample_row_103 (sample_author ''Poe'' ''Eve''
      [''Department of Biology, University of X, eve@uni.edu'']) =
     (sample_row_103\<lparr>Corresponding_Author_Email := ''eve@uni.edu''\<rparr>, None)"
proof -
  let ?author = "sample_author ''Poe'' ''Eve'' [''Department of Biology, University of X, eve@uni.edu'']"
  have fa: "first_affiliation ?author =
      Inr (Str ''Department of Biology, University of X, eve@uni.edu'')"
    by (simp add: run_defs)
  have na: "\<not> is_non_academic (Str ''Department of Biology, University of X, eve@uni.edu'')"
    by (simp add: run_defs)
  have "re_search email_pattern ''Department of Biology, University of X, eve@uni.edu'' =
      Some ''eve@uni.edu''"
    by (simp add: run_defs)
  then have sh: "first_email_shaped ''Department of Biology, University of X, eve@uni.edu''
      ''eve@uni.edu''"
    by (rule re_search_email_first)
  from email_from_unflagged_author
         [where author = ?author and m = "''eve@uni.edu''" and info = sample_row_103
            and affiliation = "''Department of Biology, University of X, eve@uni.edu''"]
       fa na sh
  have "author_step sample_row_103 ?author =
     (sample_row_103\<lparr>Corresponding_Author_Email := ''eve@uni.edu''\<rparr>, None)"
    by blast
  with fa na sh show ?thesis by blast
qed

text \<open>
  C8. Of the affiliation entries of an author only the first is read: two authors that
  differ only in the entries after the first have the same first affiliation and the same
  email, their step has the same effect, and so has the whole loop over a list of authors
  in which one stands for the other.
\<close>

theorem only_first_affiliation_inspected:
  assumes "map_of kvs ''AffiliationInfo'' = Some (Lst (entry # others))"
    and "map_of kvs' ''AffiliationInfo'' = Some (Lst (entry # others'))"
    and "\<forall>k. k \<noteq> ''AffiliationInfo'' \<longrightarrow> map_of kvs' k = map_of kvs k"
  shows "first_affiliation (Dct kvs') = first_affiliation (Dct kvs) \<and>
         first_affiliation (Dct kvs) = subscript_key entry ''Affiliation'' \<and>
         author_email (Dct kvs') = author_email (Dct kvs) \<and>
         author_step info (Dct kvs') = author_step info (Dct kvs) \<and>
         author_loop info (before @ Dct kvs' # after) = author_loop info (before @ Dct kvs # after)"
proof -
  have fa: "first_affiliation (Dct kvs) = subscript_key entry ''Affiliation''"
    using assms(1) by (simp add: first_affiliation_def split: sum.splits)
  have fa': "first_affiliation (Dct kvs') = subscript_key entry ''Affiliation''"
    using assms(2) by (simp add: first_affiliation_def split: sum.splits)
  have ln: "subscript_key (Dct kvs') ''LastName'' = subscript_key (Dct kvs) ''LastName''"
    and fn: "subscript_key (Dct kvs') ''ForeName'' = subscript_key (Dct kvs) ''ForeName''"
    using assms(3) by simp_all
  have an: "author_name (Dct kvs') = author_name (Dct kvs)"
    unfolding author_name_def ln fn by (rule refl)
  have em: "author_email (Dct kvs') = author_email (Dct kvs)"
    by (simp add: author_email_def fa fa')
  have st: "author_step info0 (Dct kvs') = author_step info0 (Dct kvs)" for info0
    unfolding author_step_def fa fa' an using assms(1,2) by simp
  have "author_loop info (before @ Dct kvs' # after) = author_loop info (before @ Dct kvs # after)"
    by (simp add: author_loop_append st split: prod.splits option.splits)
  with fa fa' em st show ?thesis by simp
qed

theorem only_first_affiliation_inspected_witness:
  "author_step (new_paper_info (Str ''101''))
     (sample_author ''Doe'' ''John''
        [''XYZ Pharma Inc, contact: a.b@xyz.com'', ''University of Y, j.doe@uni.edu'']) =
   author_step (new_paper_info (Str ''101''))
     (sample_author ''Doe'' ''John'' [''XYZ Pharma Inc, contact: a.b@xyz.com'']) \<and>
   author_step (new_paper_info (Str ''101''))
     (sample_author ''Doe'' ''John''
        [''XYZ Pharma Inc, contact: a.b@xyz.com'', ''University of Y, j.doe@uni.edu'']) =
   (\<lparr>PubmedID = Str ''101'', Title = Str [], Publication_Date = Str [],
     Non_academic_Authors = [Str ''Doe John''],
     Company_Affiliations = [Str ''XYZ Pharma Inc, contact: a.b@xyz.com''],
     Corresponding_Author_Email = ''a.b@xyz.com''\<rparr>, None)"
proof -
  let ?first = "Dct [(''Affiliation'', Str ''XYZ Pharma Inc, contact: a.b@xyz.com'')]"
  let ?second = "Dct [(''Affiliation'', Str ''University of Y, j.doe@uni.edu'')]"
  let ?one = "[(''LastName'', Str ''Doe''), (''ForeName'', Str ''John''),
               (''AffiliationInfo'', Lst [?first])]"
  let ?two = "[(''LastName'', Str ''Doe''), (''ForeName'', Str ''John''),
               (''AffiliationInfo'', Lst [?first, ?second])]"
  have a: "map_of ?one ''AffiliationInfo'' = Some (Lst (?first # []))" by simp
  have b: "map_of ?two ''AffiliationInfo'' = Some (Lst (?first # [?second]))" by simp
  have c: "\<forall>k. k \<noteq> ''AffiliationInfo'' \<longrightarrow> map_of ?two k = map_of ?one k" by simp
  from only_first_affiliation_inspected [OF a b c, of "new_paper_info (Str ''101'')"]
  have same: "author_step (new_paper_info (Str ''101'')) (Dct ?two) =
              author_step (new_paper_info (Str ''101'')) (Dct ?one)"
    by blast
  have run: "author_step (new_paper_info (Str ''101'')) (Dct ?one) =
   (\<lparr>PubmedID = Str ''101'', Title = Str [], Publication_Date = Str [],
     Non_academic_Authors = [Str ''Doe John''],
     Company_Affiliations = [Str ''XYZ Pharma Inc, contact: a.b@xyz.com''],
     Corresponding_Author_Email = ''a.b@xyz.com''\<rparr>, None)"
    by (simp add: run_defs)
  from same run show ?thesis by (simp add: sample_author_def)
qed

text \<open>
  C7. Whatever rows are written, the text of the file starts with the header line: the six
  column names in their fixed order, separated by commas, none of them quoted, ended by
  carriage return and line feed, which do not occur in the line itself. With no rows the
  file is that line and nothing else.
\<close>

theorem csv_starts_with_header:
  "prefix (''PubmedID,Title,Publication Date,Non-academic Author(s),Company Affiliation(s),Corresponding Author Email''
             @ [CHR 0x0D, CHR 0x0A])
     (save_to_csv py_str data) \<and>
   CHR 0x0D \<notin> set ''PubmedID,Title,Publication Date,Non-academic Author(s),Company Affiliation(s),Corresponding Author Email'' \<and>
   CHR 0x0A \<notin> set ''PubmedID,Title,Publication Date,Non-academic Author(s),Company Affiliation(s),Corresponding Author Email'' \<and>
   save_to_csv py_str [] =
     ''PubmedID,Title,Publication Date,Non-academic Author(s),Company Affiliation(s),Corresponding Author Email''
       @ [CHR 0x0D, CHR 0x0A] \<and>
   length (save_to_csv py_str [sample_row_101, sample_row_103]) >
     length (save_to_csv py_str [])"
proof -
  have header: "csv_writerow fieldnames =
     ''PubmedID,Title,Publication Date,Non-academic Author(s),Company Affiliation(s),Corresponding Author Email''
       @ [CHR 0x0D, CHR 0x0A]"
    by (simp add: csv_writerow_def fieldnames_def csv_field_def csv_special_def)
  have "prefix (csv_writerow fieldnames) (save_to_csv py_str data)"
    by (simp add: save_to_csv_def)
  moreover have "save_to_csv py_str [] = csv_writerow fieldnames"
    by (simp add: save_to_csv_def)
  moreover have "length (save_to_csv py_str [sample_row_101, sample_row_103]) >
     length (save_to_csv py_str [])"
    by (simp add: save_to_csv_def csv_writerow_def)
  ultimately show ?thesis unfolding header by simp
qed

end
